theory Spec2Isabelle
  imports Complex_Main
begin

section \<open>Conventions of the embedding\<close>

text \<open>
  The C sources \<^verbatim>\<open>src/density.c\<close> (smoothing-length iteration) and
  \<^verbatim>\<open>src/libgadget/mfm/gradients.c\<close> (gradient finalisation and slope limiter)
  are embedded as HOL functions.

  \<^item> \<^verbatim>\<open>double\<close> and \<^verbatim>\<open>MyFloat\<close> values are real numbers; infinities and NaN
    are outside the model. In the functions that carry the names of the source the
    arithmetic is exact. The one property below that depends on rounding, the effect of
    applying the slope limiter twice, is settled on \<open>local_slopelimiter_b64\<close>, the
    limiter with every operation rounded to binary64.
  \<^item> A division whose divisor is not a nonzero literal goes through \<open>fdiv\<close>. In C a
    division by zero yields an infinity or NaN and the program carries on; the reals
    have no such value (and HOL's \<open>x / 0\<close> is \<open>0\<close>), so the model stops with
    \<open>FloatDivByZero\<close> at that point instead of computing with a wrong number.
  \<^item> \<^verbatim>\<open>endrun(code, ...)\<close> terminates the program; it is the result \<open>Inl (Endrun code)\<close>.
  \<^item> In-place updates of arrays and struct fields return the updated value.
\<close>

datatype error = Endrun int | FloatDivByZero

definition fdiv :: "real \<Rightarrow> real \<Rightarrow> error + real" where
  "fdiv x y = (if y = 0 then Inl FloatDivByZero else Inr (x / y))"

text \<open>
  Modelled from the spec: the macros \<^verbatim>\<open>DMAX\<close> and \<^verbatim>\<open>DMIN\<close> are declared in
  \<^verbatim>\<open>allvars.h\<close>, which is not among the sources. The spec reads them as the larger and
  the smaller of the two arguments (section 4.D: \<open>Left \<leftarrow> max(Left, h)\<close>; section 4.F:
  \<open>M = min(...)\<close>, \<open>A = max(...)\<close>).
\<close>

definition DMAX :: "real \<Rightarrow> real \<Rightarrow> real" where
  "DMAX a b = (if a > b then a else b)"

definition DMIN :: "real \<Rightarrow> real \<Rightarrow> real" where
  "DMIN a b = (if a < b then a else b)"

type_synonym vec3 = "real \<times> real \<times> real"
type_synonym mat3 = "vec3 \<times> vec3 \<times> vec3"

section \<open>gradients.c\<close>

subsection \<open>local\_slopelimiter\<close>

text \<open>
  \<^verbatim>\<open>void local_slopelimiter(double *grad, double valmax, double valmin,
                          double alim, double h, double shoot_tol)\<close>
  The array \<^verbatim>\<open>grad[3]\<close> is updated in place; the model returns the new array. The loop
  \<^verbatim>\<open>for(k=0;k<3;k++) {d_abs += grad[k]*grad[k];}\<close> starts from \<^verbatim>\<open>d_abs = 0.0\<close>.
\<close>

definition local_slopelimiter ::
  "vec3 \<Rightarrow> real \<Rightarrow> real \<Rightarrow> real \<Rightarrow> real \<Rightarrow> real \<Rightarrow> error + vec3" where
  "local_slopelimiter grad valmax valmin alim h shoot_tol =
     (case grad of (g0, g1, g2) \<Rightarrow>
        let d_abs = 0 + g0 * g0 + g1 * g1 + g2 * g2 in
        if d_abs > 0 then
          (case fdiv 1 (alim * h * sqrt d_abs) of
             Inl e \<Rightarrow> Inl e
           | Inr cfac0 \<Rightarrow>
               let fabs_max = \<bar>valmax\<bar>;
                   fabs_min = \<bar>valmin\<bar>;
                   abs_min = DMIN fabs_max fabs_min;
                   cfac = (if shoot_tol > 0
                           then (let abs_max = DMAX fabs_max fabs_min
                                 in cfac0 * DMIN (abs_min + shoot_tol * abs_max) abs_max)
                           else cfac0 * abs_min)
               in if cfac < 1 then Inr (g0 * cfac, g1 * cfac, g2 * cfac) else Inr grad)
        else Inr grad)"

text \<open>Vector notions used to state the properties of the limiter.\<close>

definition vnorm :: "vec3 \<Rightarrow> real" where
  "vnorm g = (case g of (g0, g1, g2) \<Rightarrow> sqrt (g0 * g0 + g1 * g1 + g2 * g2))"

definition vscale :: "real \<Rightarrow> vec3 \<Rightarrow> vec3" where
  "vscale c g = (case g of (g0, g1, g2) \<Rightarrow> (g0 * c, g1 * c, g2 * c))"

text \<open>
  The limiter as section 4.F of the spec words it, with the coefficient
  \<open>c = 1 / (\<alpha> h |g|) \<cdot> (M + \<tau> A if \<tau> > 0 else M)\<close>.
\<close>

definition slopelimiter_as_specified ::
  "vec3 \<Rightarrow> real \<Rightarrow> real \<Rightarrow> real \<Rightarrow> real \<Rightarrow> real \<Rightarrow> vec3" where
  "slopelimiter_as_specified g dmax dmin \<alpha> h_lim \<tau> =
     (if vnorm g = 0 then g
      else let M = min \<bar>dmax\<bar> \<bar>dmin\<bar>;
               A = max \<bar>dmax\<bar> \<bar>dmin\<bar>;
               c = 1 / (\<alpha> * h_lim * vnorm g) * (if \<tau> > 0 then M + \<tau> * A else M)
           in if c < 1 then vscale c g else g)"

text \<open>The coefficient the code computes: with a tolerance the envelope is capped at \<open>A\<close>.\<close>

definition limiter_coefficient :: "vec3 \<Rightarrow> real \<Rightarrow> real \<Rightarrow> real \<Rightarrow> real \<Rightarrow> real \<Rightarrow> real" where
  "limiter_coefficient g dmax dmin \<alpha> h_lim \<tau> =
     (let M = min \<bar>dmax\<bar> \<bar>dmin\<bar>;
          A = max \<bar>dmax\<bar> \<bar>dmin\<bar>
      in 1 / (\<alpha> * h_lim * vnorm g) * (if \<tau> > 0 then min (M + \<tau> * A) A else M))"


subsection \<open>local\_slopelimiter in binary64 arithmetic\<close>

text \<open>
  Whether a second application of the limiter changes its first result is decided by the
  last bit of the coefficient, so for that question the arithmetic of \<^verbatim>\<open>double\<close> is
  modelled as well: every operation returns the binary64 number nearest to the exact
  result, a tie going to the even significand (the default rounding mode of IEEE 754).

  \<^item> \<open>round_even r\<close> is the integer nearest to \<open>r\<close>, a tie going to the even one.
  \<^item> \<open>ulp x\<close> is the spacing of the binary64 numbers in the binade of \<open>x\<close>: for
    \<open>2^e \<le> |x| < 2^(e+1)\<close> these are the multiples of \<open>2^(e-52)\<close>.
  \<^item> \<open>fl x\<close> is \<open>x\<close> rounded to 53 significant bits. The exponent is not bounded:
    overflow, underflow, subnormal numbers, infinities and NaN are outside the model, and
    so are fused multiply-add and extended-precision registers (each operation is
    rounded on its own).
  \<^item> \<open>eps64\<close> is the unit roundoff \<open>2^(-53)\<close>, a bound on the relative error of \<open>fl\<close>.
\<close>

definition round_even :: "real \<Rightarrow> int" where
  "round_even r =
     (let f = \<lfloor>r\<rfloor>; d = r - of_int f
      in if d < 1 / 2 then f else if 1 / 2 < d then f + 1 else if even f then f else f + 1)"

definition ulp :: "real \<Rightarrow> real" where
  "ulp x = 2 powr of_int (\<lfloor>log 2 \<bar>x\<bar>\<rfloor> - 52)"

definition fl :: "real \<Rightarrow> real" where
  "fl x = (if x = 0 then 0 else of_int (round_even (x / ulp x)) * ulp x)"

definition eps64 :: real where
  "eps64 = 1 / 2 ^ 53"

text \<open>
  \<^verbatim>\<open>local_slopelimiter\<close>, lines 198 to 218, with the result of every floating-point
  operation rounded. \<^verbatim>\<open>d_abs += grad[k]*grad[k]\<close> rounds the product and then the sum,
  starting from \<^verbatim>\<open>d_abs = 0.0\<close>; \<^verbatim>\<open>1 / (alim * h * sqrt(d_abs))\<close> rounds \<^verbatim>\<open>alim * h\<close>,
  the square root, their product and the quotient; \<^verbatim>\<open>cfac *= ...\<close> and
  \<^verbatim>\<open>grad[k] *= cfac\<close> round the products. \<^verbatim>\<open>fabs\<close>, \<^verbatim>\<open>DMIN\<close>, \<^verbatim>\<open>DMAX\<close> and the
  comparisons are exact.
\<close>

definition local_slopelimiter_b64 ::
  "vec3 \<Rightarrow> real \<Rightarrow> real \<Rightarrow> real \<Rightarrow> real \<Rightarrow> real \<Rightarrow> error + vec3" where
  "local_slopelimiter_b64 grad valmax valmin alim h shoot_tol =
     (case grad of (g0, g1, g2) \<Rightarrow>
        let d_abs = fl (fl (fl (0 + fl (g0 * g0)) + fl (g1 * g1)) + fl (g2 * g2)) in
        if d_abs > 0 then
          (case fdiv 1 (fl (fl (alim * h) * fl (sqrt d_abs))) of
             Inl e \<Rightarrow> Inl e
           | Inr q \<Rightarrow>
               let cfac0 = fl q;
                   fabs_max = \<bar>valmax\<bar>;
                   fabs_min = \<bar>valmin\<bar>;
                   abs_min = DMIN fabs_max fabs_min;
                   cfac = (if shoot_tol > 0
                           then (let abs_max = DMAX fabs_max fabs_min
                                 in fl (cfac0 * DMIN (fl (abs_min + fl (shoot_tol * abs_max))) abs_max))
                           else fl (cfac0 * abs_min))
               in if cfac < 1 then Inr (fl (g0 * cfac), fl (g1 * cfac), fl (g2 * cfac))
                  else Inr grad)
        else Inr grad)"

text \<open>
  The intermediate values of \<open>local_slopelimiter_b64\<close> by name: the rounded sum of
  squares \<^verbatim>\<open>d_abs\<close>, the envelope that multiplies \<^verbatim>\<open>cfac\<close>, the final value of
  \<^verbatim>\<open>cfac\<close>, and the gradient after \<^verbatim>\<open>grad[k] *= cfac\<close>.
\<close>

definition sumsq_b64 :: "vec3 \<Rightarrow> real" where
  "sumsq_b64 g =
     (case g of (g0, g1, g2) \<Rightarrow> fl (fl (fl (0 + fl (g0 * g0)) + fl (g1 * g1)) + fl (g2 * g2)))"

definition envelope_b64 :: "real \<Rightarrow> real \<Rightarrow> real \<Rightarrow> real" where
  "envelope_b64 valmax valmin shoot_tol =
     (if shoot_tol > 0
      then DMIN (fl (DMIN \<bar>valmax\<bar> \<bar>valmin\<bar> + fl (shoot_tol * DMAX \<bar>valmax\<bar> \<bar>valmin\<bar>)))
             (DMAX \<bar>valmax\<bar> \<bar>valmin\<bar>)
      else DMIN \<bar>valmax\<bar> \<bar>valmin\<bar>)"

definition cfac_b64 :: "vec3 \<Rightarrow> real \<Rightarrow> real \<Rightarrow> real \<Rightarrow> real \<Rightarrow> real \<Rightarrow> real" where
  "cfac_b64 g valmax valmin alim h shoot_tol =
     fl (fl (1 / fl (fl (alim * h) * fl (sqrt (sumsq_b64 g)))) * envelope_b64 valmax valmin shoot_tol)"

definition vscale_b64 :: "real \<Rightarrow> vec3 \<Rightarrow> vec3" where
  "vscale_b64 c g = (case g of (g0, g1, g2) \<Rightarrow> (fl (g0 * c), fl (g1 * c), fl (g2 * c)))"


subsection \<open>construct\_gradient\<close>

text \<open>
  The fields of \<^verbatim>\<open>SphP[i]\<close> and \<^verbatim>\<open>PPP[i]\<close> that \<^verbatim>\<open>construct_gradient\<close> reads. The
  struct declarations are in \<^verbatim>\<open>allvars.h\<close>, which is not among the sources; the field
  names are those of the accesses in \<^verbatim>\<open>gradients.c\<close> (the density is \<^verbatim>\<open>SphP[i].Density\<close>).
\<close>

record gas_cell =
  ConditionNumber :: real
  NV_T :: mat3
  DhsmlNgbFactor :: real
  SphP_Density :: real

text \<open>
  \<^verbatim>\<open>#define SHOULD_I_USE_SPH_GRADIENTS(condition_number)
     ((condition_number > CONDITION_NUMBER_DANGER) ? (1):(0))\<close>
  The threshold \<^verbatim>\<open>CONDITION_NUMBER_DANGER\<close> is defined in a header that is not among
  the sources; it is a parameter.
\<close>

definition SHOULD_I_USE_SPH_GRADIENTS :: "real \<Rightarrow> real \<Rightarrow> int" where
  "SHOULD_I_USE_SPH_GRADIENTS CONDITION_NUMBER_DANGER condition_number =
     (if condition_number > CONDITION_NUMBER_DANGER then 1 else 0)"

definition construct_gradient :: "real \<Rightarrow> gas_cell \<Rightarrow> vec3 \<Rightarrow> error + vec3" where
  "construct_gradient CONDITION_NUMBER_DANGER c grad =
     (case grad of (g0, g1, g2) \<Rightarrow>
        if SHOULD_I_USE_SPH_GRADIENTS CONDITION_NUMBER_DANGER (ConditionNumber c) \<noteq> 0
        then (case fdiv (DhsmlNgbFactor c) (SphP_Density c) of
                Inl e \<Rightarrow> Inl e
              | Inr f \<Rightarrow> Inr (g0 * f, g1 * f, g2 * f))
        else (case NV_T c of ((n00, n01, n02), (n10, n11, n12), (n20, n21, n22)) \<Rightarrow>
                let v_tmp0 = g0; v_tmp1 = g1; v_tmp2 = g2
                in Inr (n00 * v_tmp0 + n01 * v_tmp1 + n02 * v_tmp2,
                        n10 * v_tmp0 + n11 * v_tmp1 + n12 * v_tmp2,
                        n20 * v_tmp0 + n21 * v_tmp1 + n22 * v_tmp2)))"

text \<open>The product of a 3x3 matrix (given by its rows) with a column vector.\<close>

definition row_dot :: "vec3 \<Rightarrow> vec3 \<Rightarrow> real" where
  "row_dot r v = (case r of (a, b, c) \<Rightarrow> case v of (x, y, z) \<Rightarrow> a * x + b * y + c * z)"

definition mat_vec :: "mat3 \<Rightarrow> vec3 \<Rightarrow> vec3" where
  "mat_vec m v = (case m of (r0, r1, r2) \<Rightarrow> (row_dot r0 v, row_dot r1 v, row_dot r2 v))"

section \<open>density.c\<close>

subsection \<open>Parameters and particle data\<close>

text \<open>
  The compile-time constants \<^verbatim>\<open>NUMDIMS\<close>, \<^verbatim>\<open>MAXITER\<close>, \<^verbatim>\<open>GAMMA\<close> and the fields of the
  global parameter struct \<^verbatim>\<open>All\<close> that \<^verbatim>\<open>density.c\<close> reads are declared in headers
  that are not among the sources; they are the fields of one parameter record.
  \<^verbatim>\<open>BLACK_HOLES\<close> tells whether the code is compiled with \<^verbatim>\<open>#ifdef BLACK_HOLES\<close>
  (sink particles of type 5 take part in the density loop). The other conditional
  blocks (\<^verbatim>\<open>VOLUME_CORRECTION\<close>, \<^verbatim>\<open>DENSITY_INDEPENDENT_SPH\<close>, \<^verbatim>\<open>SOFTEREQS\<close>, \<^verbatim>\<open>WINDS\<close>,
  \<^verbatim>\<open>HYDRO_COST_FACTOR\<close>, \<^verbatim>\<open>SPH_GRAD_RHO\<close>) are not compiled in the embedded build.
\<close>

record params =
  NUMDIMS :: nat
  MAXITER :: nat
  GAMMA :: real
  BLACK_HOLES :: bool
  DesNumNgb :: real
  MaxNumNgbDeviation :: real
  MinGasHsml :: real
  BlackHoleNgbFactor :: real
  BlackHoleMaxAccretionRadius :: real
  Ti_Current :: int
  Timebase_interval :: real

text \<open>
  One entry of the particle array \<^verbatim>\<open>P[]\<close> together with its gas slot \<^verbatim>\<open>SPHP(i)\<close> and
  its sink slot \<^verbatim>\<open>BHP(i)\<close>. \<^verbatim>\<open>NumNgb\<close> is the member \<^verbatim>\<open>P[i].n.NumNgb\<close>, which shares
  its storage with \<^verbatim>\<open>P[i].n.dNumNgb\<close>. The fields \<open>BH_\<dots>\<close> are those of \<^verbatim>\<open>BHP(i)\<close>.
\<close>

record particle =
  Type :: int
  TimeBin :: int
  Ti_begstep :: int
  Hsml :: real
  NumNgb :: real
  DensityIterationDone :: bool
  SwallowID :: int
  Density :: real
  DhsmlDensityFactor :: real
  DivVel :: real
  CurlVel :: real
  Rot :: vec3
  Entropy :: real
  DtEntropy :: real
  Pressure :: real
  BH_Density :: real
  BH_Entropy :: real
  BH_Pressure :: real
  BH_FeedbackWeightSum :: real
  BH_SurroundingGasVel :: vec3

subsection \<open>density\_isactive\<close>

definition density_isactive :: "params \<Rightarrow> particle \<Rightarrow> error + bool" where
  "density_isactive cfg p =
     (if DensityIterationDone p then Inr False
      else if TimeBin p < 0 then Inl (Endrun 9999)
      else if BLACK_HOLES cfg \<and> Type p = 5 then Inr True
      else if Type p = 0 then Inr True
      else Inr False)"

subsection \<open>density\_post\_process\<close>

text \<open>Conversion of a \<^verbatim>\<open>double\<close> to \<^verbatim>\<open>int\<close>: the fraction is discarded.\<close>

definition c_trunc :: "real \<Rightarrow> int" where
  "c_trunc x = (if 0 \<le> x then \<lfloor>x\<rfloor> else \<lceil>x\<rceil>)"

text \<open>
  Lines 541 to 567, the block under \<^verbatim>\<open>if(SPHP(i).Density > 0)\<close>: the rescaling of
  \<^verbatim>\<open>DhsmlDensityFactor\<close>, then \<^verbatim>\<open>CurlVel\<close> and \<^verbatim>\<open>DivVel\<close>.
\<close>

definition sph_normalise :: "params \<Rightarrow> particle \<Rightarrow> error + particle" where
  "sph_normalise cfg p0 =
     (case fdiv (Hsml p0) (real (NUMDIMS cfg) * Density p0) of
        Inl e \<Rightarrow> Inl e
      | Inr q \<Rightarrow>
          let p1 = p0\<lparr>DhsmlDensityFactor := DhsmlDensityFactor p0 * q\<rparr> in
          (case (if DhsmlDensityFactor p1 > - 0.9
                 then (case fdiv 1 (1 + DhsmlDensityFactor p1) of
                         Inl e \<Rightarrow> Inl e
                       | Inr f \<Rightarrow> Inr (p1\<lparr>DhsmlDensityFactor := f\<rparr>))
                 else Inr (p1\<lparr>DhsmlDensityFactor := 1\<rparr>)) of
             Inl e \<Rightarrow> Inl e
           | Inr p2 \<Rightarrow>
               (case Rot p2 of (rot0, rot1, rot2) \<Rightarrow>
                  (case fdiv (sqrt (rot0 * rot0 + rot1 * rot1 + rot2 * rot2)) (Density p2) of
                     Inl e \<Rightarrow> Inl e
                   | Inr cv \<Rightarrow>
                       let p3 = p2\<lparr>CurlVel := cv\<rparr> in
                       (case fdiv (DivVel p3) (Density p3) of
                          Inl e \<Rightarrow> Inl e
                        | Inr dv \<Rightarrow> Inr (p3\<lparr>DivVel := dv\<rparr>))))))"

text \<open>
  Lines 574 to 576. \<^verbatim>\<open>1 << TimeBin\<close> is \<open>2 ^ TimeBin\<close> (the time bin is a small
  non-negative number; \<^verbatim>\<open>int\<close> overflow is not modelled), \<^verbatim>\<open>dt_step / 2\<close> is an integer
  division, and the product with \<^verbatim>\<open>All.Timebase_interval\<close> is converted to \<^verbatim>\<open>int\<close>.
  \<^verbatim>\<open>pow(Density, GAMMA)\<close> is \<open>Density powr GAMMA\<close>.
\<close>

definition sph_pressure :: "params \<Rightarrow> particle \<Rightarrow> particle" where
  "sph_pressure cfg p =
     (let dt_step = (if TimeBin p \<noteq> 0 then (2::int) ^ nat (TimeBin p) else 0);
          dt_entr = c_trunc (real_of_int (Ti_Current cfg - (Ti_begstep p + dt_step div 2))
                             * Timebase_interval cfg)
      in p\<lparr>Pressure := (Entropy p + DtEntropy p * real_of_int dt_entr)
                          * (Density p powr GAMMA cfg)\<rparr>)"

text \<open>Lines 591 to 599, the block under \<^verbatim>\<open>if(BHP(i).Density > 0)\<close>.\<close>

definition bh_normalise :: "particle \<Rightarrow> error + particle" where
  "bh_normalise p0 =
     (case fdiv (BH_Entropy p0) (BH_Density p0) of
        Inl e \<Rightarrow> Inl e
      | Inr en \<Rightarrow>
          let p1 = p0\<lparr>BH_Entropy := en\<rparr> in
          (case fdiv (BH_Pressure p1) (BH_Density p1) of
             Inl e \<Rightarrow> Inl e
           | Inr pr \<Rightarrow>
               let p2 = p1\<lparr>BH_Pressure := pr\<rparr> in
               (case BH_SurroundingGasVel p2 of (v0, v1, v2) \<Rightarrow>
                  (case fdiv v0 (BH_Density p2) of
                     Inl e \<Rightarrow> Inl e
                   | Inr w0 \<Rightarrow>
                       (case fdiv v1 (BH_Density p2) of
                          Inl e \<Rightarrow> Inl e
                        | Inr w1 \<Rightarrow>
                            (case fdiv v2 (BH_Density p2) of
                               Inl e \<Rightarrow> Inl e
                             | Inr w2 \<Rightarrow> Inr (p2\<lparr>BH_SurroundingGasVel := (w0, w1, w2)\<rparr>)))))))"

definition density_post_process :: "params \<Rightarrow> particle \<Rightarrow> error + particle" where
  "density_post_process cfg p =
     (case (if Type p = 0
            then (case (if Density p > 0 then sph_normalise cfg p else Inr p) of
                    Inl e \<Rightarrow> Inl e
                  | Inr p' \<Rightarrow> Inr (sph_pressure cfg p'))
            else Inr p) of
        Inl e \<Rightarrow> Inl e
      | Inr p' \<Rightarrow>
          if BLACK_HOLES cfg \<and> Type p' = 5
          then (if BH_Density p' > 0 then bh_normalise p' else Inr p')
          else Inr p')"

subsection \<open>density\_check\_neighbours\<close>

text \<open>
  The expression of lines 656 to 658 and 673 to 675,
  \<^verbatim>\<open>1 - (NumNgb - desnumngb) / (NUMDIMS * NumNgb) * DhsmlDensityFactor\<close>.
\<close>

definition newton_fac :: "params \<Rightarrow> particle \<Rightarrow> real \<Rightarrow> error + real" where
  "newton_fac cfg p desnumngb =
     (case fdiv (NumNgb p - desnumngb) (real (NUMDIMS cfg) * NumNgb p) of
        Inl e \<Rightarrow> Inl e
      | Inr q \<Rightarrow> Inr (1 - q * DhsmlDensityFactor p))"

text \<open>
  Lines 645 to 685: the new \<^verbatim>\<open>P[i].Hsml\<close> from the bracket \<open>(Left1, Right1)\<close> as updated
  by lines 632 to 643. The two \<^verbatim>\<open>if\<close> statements of lines 652 and 669 follow one
  another; the second sees the \<^verbatim>\<open>Hsml\<close> the first has left. \<^verbatim>\<open>pow(x, 3)\<close> is
  \<open>x ^ 3\<close>; \<^verbatim>\<open>pow(y, 1.0 / 3)\<close> is \<open>y powr (1 / 3)\<close>, evaluated only where \<open>y > 0\<close>.
\<close>

definition hsml_update :: "params \<Rightarrow> particle \<Rightarrow> real \<Rightarrow> real \<Rightarrow> real \<Rightarrow> error + real" where
  "hsml_update cfg p desnumngb Left1 Right1 =
     (if Right1 > 0 \<and> Left1 > 0
      then Inr ((0.5 * (Left1 ^ 3 + Right1 ^ 3)) powr (1 / 3))
      else if Right1 = 0 \<and> Left1 = 0 then Inl (Endrun 8188)
      else
        (case (if Right1 = 0 \<and> Left1 > 0
               then (if Type p = 0 \<and> \<bar>NumNgb p - desnumngb\<bar> < 0.5 * desnumngb
                     then (case newton_fac cfg p desnumngb of
                             Inl e \<Rightarrow> Inl e
                           | Inr fac \<Rightarrow>
                               if fac < 1.26 then Inr (Hsml p * fac) else Inr (Hsml p * 1.26))
                     else Inr (Hsml p * 1.26))
               else Inr (Hsml p)) of
           Inl e \<Rightarrow> Inl e
         | Inr h1 \<Rightarrow>
             if Right1 > 0 \<and> Left1 = 0
             then (if Type p = 0 \<and> \<bar>NumNgb p - desnumngb\<bar> < 0.5 * desnumngb
                   then (case newton_fac cfg p desnumngb of
                           Inl e \<Rightarrow> Inl e
                         | Inr fac \<Rightarrow>
                             if fac > 1 / 1.26 then Inr (h1 * fac) else Inr (h1 / 1.26))
                   else Inr (h1 / 1.26))
             else Inr h1))"

text \<open>
  \<^verbatim>\<open>void density_check_neighbours (int i, MyFloat * Left, MyFloat * Right)\<close>
  reads and writes \<^verbatim>\<open>P[i]\<close>, \<^verbatim>\<open>Left[i]\<close> and \<^verbatim>\<open>Right[i]\<close> only; the model takes these
  three and returns them updated.
\<close>

definition density_check_neighbours ::
  "params \<Rightarrow> particle \<Rightarrow> real \<Rightarrow> real \<Rightarrow> error + particle \<times> real \<times> real" where
  "density_check_neighbours cfg p Left_i Right_i =
     (let desnumngb = (if BLACK_HOLES cfg \<and> Type p = 5
                       then DesNumNgb cfg * BlackHoleNgbFactor cfg
                       else DesNumNgb cfg)
      in
      if NumNgb p < desnumngb - MaxNumNgbDeviation cfg \<or>
         (NumNgb p > desnumngb + MaxNumNgbDeviation cfg \<and> Hsml p > 1.01 * MinGasHsml cfg)
      then
        if DensityIterationDone p then Inl (Endrun 999993)
        else if Left_i > 0 \<and> Right_i > 0 \<and> Right_i - Left_i < 0.001 * Left_i
        then Inr (p\<lparr>DensityIterationDone := True\<rparr>, Left_i, Right_i)
        else
          let Left1 = (if NumNgb p < desnumngb - MaxNumNgbDeviation cfg
                       then DMAX (Hsml p) Left_i else Left_i);
              Right1 = (if NumNgb p < desnumngb - MaxNumNgbDeviation cfg then Right_i
                        else if Right_i \<noteq> 0
                        then (if Hsml p < Right_i then Hsml p else Right_i)
                        else Hsml p)
          in
          (case hsml_update cfg p desnumngb Left1 Right1 of
             Inl e \<Rightarrow> Inl e
           | Inr h1 \<Rightarrow>
               let h2 = (if h1 < MinGasHsml cfg then MinGasHsml cfg else h1) in
               if BLACK_HOLES cfg \<and> Type p = 5 \<and> Left1 > BlackHoleMaxAccretionRadius cfg
               then Inr (p\<lparr>Hsml := BlackHoleMaxAccretionRadius cfg\<rparr>,
                         BlackHoleMaxAccretionRadius cfg, BlackHoleMaxAccretionRadius cfg)
               else Inr (p\<lparr>Hsml := h2\<rparr>, Left1, Right1))
      else Inr (p\<lparr>DensityIterationDone := True\<rparr>, Left_i, Right_i))"

text \<open>
  The decision and the update as section 4.D of the spec words them, for a target
  neighbour number \<open>N*\<close> (the parameter \<open>DesNumNgb\<close>), the tolerance \<open>\<Delta>\<close> and the minimum
  smoothing length \<open>H_min\<close>.
\<close>

definition within_tolerance :: "params \<Rightarrow> particle \<Rightarrow> bool" where
  "within_tolerance cfg p = (\<bar>NumNgb p - DesNumNgb cfg\<bar> \<le> MaxNumNgbDeviation cfg)"

definition too_many_at_floor :: "params \<Rightarrow> particle \<Rightarrow> bool" where
  "too_many_at_floor cfg p =
     (NumNgb p > DesNumNgb cfg + MaxNumNgbDeviation cfg \<and> Hsml p \<le> 1.01 * MinGasHsml cfg)"

definition bracket_collapsed :: "real \<Rightarrow> real \<Rightarrow> bool" where
  "bracket_collapsed l r = (l > 0 \<and> r > 0 \<and> r - l < 0.001 * l)"

definition done_predicate :: "params \<Rightarrow> particle \<Rightarrow> real \<Rightarrow> real \<Rightarrow> bool" where
  "done_predicate cfg p l r =
     (within_tolerance cfg p \<or> too_many_at_floor cfg p \<or> bracket_collapsed l r)"

definition bracket_left :: "params \<Rightarrow> particle \<Rightarrow> real \<Rightarrow> real" where
  "bracket_left cfg p l =
     (if NumNgb p < DesNumNgb cfg - MaxNumNgbDeviation cfg then max l (Hsml p) else l)"

definition bracket_right :: "params \<Rightarrow> particle \<Rightarrow> real \<Rightarrow> real" where
  "bracket_right cfg p r =
     (if NumNgb p < DesNumNgb cfg - MaxNumNgbDeviation cfg then r
      else if r = 0 then Hsml p else min r (Hsml p))"

definition newton_factor :: "params \<Rightarrow> particle \<Rightarrow> real" where
  "newton_factor cfg p =
     1 - (NumNgb p - DesNumNgb cfg) / (real (NUMDIMS cfg) * NumNgb p) * DhsmlDensityFactor p"

definition window :: "real \<Rightarrow> real" where
  "window f = max (1 / 1.26) (min 1.26 f)"

definition newton_applies :: "params \<Rightarrow> particle \<Rightarrow> bool" where
  "newton_applies cfg p =
     (Type p = 0 \<and> \<bar>NumNgb p - DesNumNgb cfg\<bar> < 0.5 * DesNumNgb cfg)"

text \<open>A particle for which the sink-particle code of \<^verbatim>\<open>#ifdef BLACK_HOLES\<close> runs.\<close>

definition is_sink :: "params \<Rightarrow> particle \<Rightarrow> bool" where
  "is_sink cfg p = (BLACK_HOLES cfg \<and> Type p = 5)"

subsection \<open>The tree walk\<close>

text \<open>
  The accumulated sums one walk returns for a target particle
  (\<^verbatim>\<open>TreeWalkResultDensity\<close>; the member \<^verbatim>\<open>Rot[3]\<close> is the field \<open>Rot_sum\<close>).
\<close>

record TreeWalkResultDensity =
  Rho :: real
  DhsmlDensity :: real
  Ngb :: real
  Div :: real
  Rot_sum :: vec3
  SmoothedEntropy :: real
  SmoothedPressure :: real
  FeedbackWeightSum :: real
  GasVel :: vec3

datatype TreeWalkReduceMode = TREEWALK_PRIMARY | TREEWALK_GHOSTS

text \<open>
  Modelled from the spec: the macro \<^verbatim>\<open>TREEWALK_REDUCE\<close> and the reduce modes are declared
  in \<^verbatim>\<open>treewalk.h\<close>, which is not among the sources. Section 4.B has
  \<open>reduce_result(i, R, mode)\<close> with a primary mode for the target's own process and an
  accumulating mode for the results that peers return: the primary result is stored,
  a later one is added.
\<close>

definition TREEWALK_REDUCE :: "TreeWalkReduceMode \<Rightarrow> real \<Rightarrow> real \<Rightarrow> real" where
  "TREEWALK_REDUCE mode A B = (if mode = TREEWALK_PRIMARY then B else A + B)"

definition TREEWALK_REDUCE3 :: "TreeWalkReduceMode \<Rightarrow> vec3 \<Rightarrow> vec3 \<Rightarrow> vec3" where
  "TREEWALK_REDUCE3 mode A B =
     (case A of (a0, a1, a2) \<Rightarrow> case B of (b0, b1, b2) \<Rightarrow>
        (TREEWALK_REDUCE mode a0 b0, TREEWALK_REDUCE mode a1 b1, TREEWALK_REDUCE mode a2 b2))"

definition density_reduce ::
  "params \<Rightarrow> TreeWalkResultDensity \<Rightarrow> TreeWalkReduceMode \<Rightarrow> particle \<Rightarrow> particle" where
  "density_reduce cfg remote mode p0 =
     (let p1 = p0\<lparr>NumNgb := TREEWALK_REDUCE mode (NumNgb p0) (Ngb remote)\<rparr>;
          p2 = (if Type p1 = 0
                then p1\<lparr>Density := TREEWALK_REDUCE mode (Density p1) (Rho remote),
                        DhsmlDensityFactor :=
                          TREEWALK_REDUCE mode (DhsmlDensityFactor p1) (DhsmlDensity remote),
                        DivVel := TREEWALK_REDUCE mode (DivVel p1) (Div remote),
                        Rot := TREEWALK_REDUCE3 mode (Rot p1) (Rot_sum remote)\<rparr>
                else p1)
      in if BLACK_HOLES cfg \<and> Type p2 = 5
         then p2\<lparr>BH_Density := TREEWALK_REDUCE mode (BH_Density p2) (Rho remote),
                 BH_FeedbackWeightSum :=
                   TREEWALK_REDUCE mode (BH_FeedbackWeightSum p2) (FeedbackWeightSum remote),
                 BH_Entropy := TREEWALK_REDUCE mode (BH_Entropy p2) (SmoothedEntropy remote),
                 BH_Pressure := TREEWALK_REDUCE mode (BH_Pressure p2) (SmoothedPressure remote),
                 BH_SurroundingGasVel :=
                   TREEWALK_REDUCE3 mode (BH_SurroundingGasVel p2) (GasVel remote)\<rparr>
         else p2)"

text \<open>
  The state of \<^verbatim>\<open>density()\<close>: the particle array and the two bracket arrays, indexed by
  the particle number.
\<close>

record dstate =
  Part :: "nat \<Rightarrow> particle"
  Left :: "nat \<Rightarrow> real"
  Right :: "nat \<Rightarrow> real"

text \<open>
  Modelled from the spec: \<^verbatim>\<open>treewalk_get_queue\<close> is defined in \<^verbatim>\<open>treewalk.c\<close>, which is
  not among the sources. By section 4.B the driver works on the particles of the active
  list for which \<open>is_active\<close> holds; the queue lists them in the order of the active list
  (\<^verbatim>\<open>FirstActiveParticle\<close>, \<^verbatim>\<open>NextActiveParticle[]\<close>, here the list \<open>active\<close>).
\<close>

fun treewalk_get_queue :: "params \<Rightarrow> (nat \<Rightarrow> particle) \<Rightarrow> nat list \<Rightarrow> error + nat list" where
  "treewalk_get_queue cfg P [] = Inr []"
| "treewalk_get_queue cfg P (i # rest) =
     (case density_isactive cfg (P i) of
        Inl e \<Rightarrow> Inl e
      | Inr a \<Rightarrow>
          (case treewalk_get_queue cfg P rest of
             Inl e \<Rightarrow> Inl e
           | Inr q \<Rightarrow> Inr (if a then i # q else q)))"

text \<open>
  Modelled from the spec: \<^verbatim>\<open>treewalk_run\<close> is defined in \<^verbatim>\<open>treewalk.c\<close>, which is not
  among the sources, and the neighbour sums depend on the tree and the kernel, which
  are not either. By sections 4.B and 5 the driver produces, for each queued particle, a
  result on the particle's own process, reduced in the primary mode, and the results
  that peers return, reduced after it in the accumulating mode; it writes to no other
  particle (in the sources, \<^verbatim>\<open>density_ngbiter\<close> writes to its result record only and
  \<^verbatim>\<open>density_reduce\<close> to \<^verbatim>\<open>P[place]\<close> only). The sums are the parameter \<open>walk\<close>: for the
  state before the walk and a target it gives the local result and the list of the
  peers' results.
\<close>

type_synonym walk_results =
  "(nat \<Rightarrow> particle) \<Rightarrow> nat \<Rightarrow> TreeWalkResultDensity \<times> TreeWalkResultDensity list"

definition reduce_target :: "params \<Rightarrow> TreeWalkResultDensity \<times> TreeWalkResultDensity list \<Rightarrow>
    particle \<Rightarrow> particle" where
  "reduce_target cfg res p =
     fold (\<lambda>remote q. density_reduce cfg remote TREEWALK_GHOSTS q) (snd res)
       (density_reduce cfg (fst res) TREEWALK_PRIMARY p)"

definition treewalk_run :: "params \<Rightarrow> walk_results \<Rightarrow> nat list \<Rightarrow> dstate \<Rightarrow> error + dstate" where
  "treewalk_run cfg walk active s =
     (case treewalk_get_queue cfg (Part s) active of
        Inl e \<Rightarrow> Inl e
      | Inr queue \<Rightarrow>
          Inr (s\<lparr>Part := fold (\<lambda>p P. P(p := reduce_target cfg (walk (Part s) p) (P p)))
                            queue (Part s)\<rparr>))"

subsection \<open>density\<close>

text \<open>
  Lines 182 to 200: the loop over the queue after a walk, with the counter \<^verbatim>\<open>npleft\<close>.
  The \<^verbatim>\<open>message\<close> of lines 189 to 194 prints and changes nothing (it reads
  \<^verbatim>\<open>queue[p]\<close> with the particle number \<^verbatim>\<open>p\<close> as index; what that read returns is not
  part of the model). The iterations of the \<^verbatim>\<open>omp parallel for\<close> touch \<^verbatim>\<open>P[p]\<close>,
  \<^verbatim>\<open>Left[p]\<close> and \<^verbatim>\<open>Right[p]\<close> of their own \<^verbatim>\<open>p\<close> only and are run in queue order.
\<close>

fun finalise_queue :: "params \<Rightarrow> nat list \<Rightarrow> dstate \<Rightarrow> nat \<Rightarrow> error + dstate \<times> nat" where
  "finalise_queue cfg [] s npleft = Inr (s, npleft)"
| "finalise_queue cfg (p # queue) s npleft =
     (case density_post_process cfg (Part s p) of
        Inl e \<Rightarrow> Inl e
      | Inr p1 \<Rightarrow>
          (case density_check_neighbours cfg p1 (Left s p) (Right s p) of
             Inl e \<Rightarrow> Inl e
           | Inr (p2, l, r) \<Rightarrow>
               finalise_queue cfg queue
                 (s\<lparr>Part := (Part s)(p := p2), Left := (Left s)(p := l), Right := (Right s)(p := r)\<rparr>)
                 (if \<not> DensityIterationDone p2 then npleft + 1 else npleft)))"

text \<open>
  One pass of the \<^verbatim>\<open>do\<close> loop up to line 206. \<^verbatim>\<open>sumup_large_ints\<close> (not among the
  sources) adds the counts \<^verbatim>\<open>npleft\<close> of all processes into \<^verbatim>\<open>ntot\<close>; the count of the
  other processes in this pass is the parameter \<open>others\<close>.
\<close>

definition density_pass ::
  "params \<Rightarrow> walk_results \<Rightarrow> nat \<Rightarrow> nat list \<Rightarrow> dstate \<Rightarrow> error + dstate \<times> nat" where
  "density_pass cfg walk others active s =
     (case treewalk_run cfg walk active s of
        Inl e \<Rightarrow> Inl e
      | Inr s1 \<Rightarrow>
          (case treewalk_get_queue cfg (Part s1) active of
             Inl e \<Rightarrow> Inl e
           | Inr queue \<Rightarrow>
               (case finalise_queue cfg queue s1 0 of
                  Inl e \<Rightarrow> Inl e
                | Inr (s2, npleft) \<Rightarrow> Inr (s2, npleft + others))))"

text \<open>
  The \<^verbatim>\<open>do { ... } while(ntot > 0)\<close> loop of lines 172 to 237, entered with the counter
  \<^verbatim>\<open>iter\<close>. The walk results and the other processes' counts may differ from pass to
  pass; they are indexed by \<^verbatim>\<open>iter\<close>.
\<close>

function density_loop ::
  "params \<Rightarrow> (nat \<Rightarrow> walk_results) \<Rightarrow> (nat \<Rightarrow> nat) \<Rightarrow> nat list \<Rightarrow> nat \<Rightarrow> dstate \<Rightarrow> error + dstate" where
  "density_loop cfg walk others active iter s =
     (case density_pass cfg (walk iter) (others iter) active s of
        Inl e \<Rightarrow> Inl e
      | Inr (s', ntot) \<Rightarrow>
          if ntot > 0
          then (if iter + 1 > MAXITER cfg then Inl (Endrun 1155)
                else density_loop cfg walk others active (iter + 1) s')
          else Inr s')"
  by pat_completeness auto
termination
  by (relation "measure (\<lambda>(cfg, walk, others, active, iter, s). MAXITER cfg + 1 - iter)") auto

declare density_loop.simps [simp del]

text \<open>
  Lines 148 to 164: the flags of the active particles are cleared, then the brackets of
  the queued particles are set to zero (and \<^verbatim>\<open>SwallowID\<close> with \<^verbatim>\<open>BLACK_HOLES\<close>). The arrays
  \<^verbatim>\<open>Left\<close> and \<^verbatim>\<open>Right\<close> come from \<^verbatim>\<open>mymalloc\<close>; their other entries are whatever the
  initial state holds.
\<close>

definition clear_flags :: "nat list \<Rightarrow> (nat \<Rightarrow> particle) \<Rightarrow> (nat \<Rightarrow> particle)" where
  "clear_flags active P = fold (\<lambda>i P. P(i := (P i)\<lparr>DensityIterationDone := False\<rparr>)) active P"

definition init_brackets :: "params \<Rightarrow> nat list \<Rightarrow> dstate \<Rightarrow> dstate" where
  "init_brackets cfg queue s =
     fold (\<lambda>p s. s\<lparr>Left := (Left s)(p := 0), Right := (Right s)(p := 0),
                   Part := (if BLACK_HOLES cfg
                            then (Part s)(p := (Part s p)\<lparr>SwallowID := 0\<rparr>)
                            else Part s)\<rparr>) queue s"

definition density_init :: "params \<Rightarrow> nat list \<Rightarrow> dstate \<Rightarrow> error + dstate" where
  "density_init cfg active s0 =
     (let s1 = s0\<lparr>Part := clear_flags active (Part s0)\<rparr> in
      case treewalk_get_queue cfg (Part s1) active of
        Inl e \<Rightarrow> Inl e
      | Inr queue \<Rightarrow> Inr (init_brackets cfg queue s1))"

text \<open>
  \<^verbatim>\<open>void density(void)\<close>: the initialisation, then the loop entered with \<^verbatim>\<open>iter = 0\<close>.
  The timing calls and \<^verbatim>\<open>myfree\<close> have no part in the result.
\<close>

definition density ::
  "params \<Rightarrow> (nat \<Rightarrow> walk_results) \<Rightarrow> (nat \<Rightarrow> nat) \<Rightarrow> nat list \<Rightarrow> dstate \<Rightarrow> error + dstate" where
  "density cfg walk others active s0 =
     (case density_init cfg active s0 of
        Inl e \<Rightarrow> Inl e
      | Inr s \<Rightarrow> density_loop cfg walk others active 0 s)"

text \<open>
  The state after \<open>n\<close> passes that all ended with a nonzero global count, the first of
  them run with the counter \<open>iter\<close>; \<open>None\<close> when one of them stops the program or ends
  with the count zero.
\<close>

fun after_passes ::
  "params \<Rightarrow> (nat \<Rightarrow> walk_results) \<Rightarrow> (nat \<Rightarrow> nat) \<Rightarrow> nat list \<Rightarrow> nat \<Rightarrow> nat \<Rightarrow> dstate \<Rightarrow> dstate option" where
  "after_passes cfg walk others active 0 iter s = Some s"
| "after_passes cfg walk others active (Suc n) iter s =
     (case density_pass cfg (walk iter) (others iter) active s of
        Inl e \<Rightarrow> None
      | Inr (s', ntot) \<Rightarrow>
          if ntot > 0 then after_passes cfg walk others active n (Suc iter) s' else None)"

text \<open>
  The factor by which section 4.D has the smoothing length change when one side of the
  bracket is set: the Newton-like factor held in the window, or the plain factor
  \<open>1.26\<close> (no upper bound yet, \<open>r' = 0\<close>) and its inverse (no lower bound yet).
\<close>

definition step_factor :: "params \<Rightarrow> particle \<Rightarrow> real \<Rightarrow> real" where
  "step_factor cfg p r' =
     (if newton_applies cfg p then window (newton_factor cfg p)
      else if r' = 0 then 1.26 else 1 / 1.26)"

text \<open>The envelope that multiplies \<open>1 / (\<alpha> h |g|)\<close> in the limiter's coefficient.\<close>

definition envelope :: "real \<Rightarrow> real \<Rightarrow> real \<Rightarrow> real" where
  "envelope dmax dmin \<tau> =
     (let M = min \<bar>dmax\<bar> \<bar>dmin\<bar>; A = max \<bar>dmax\<bar> \<bar>dmin\<bar>
      in if \<tau> > 0 then min (M + \<tau> * A) A else M)"

section \<open>Example data\<close>

text \<open>
  A parameter set with \<open>N* = 32\<close>, \<open>\<Delta> = 2\<close> and \<open>H_min = 0.01\<close> (the values of the
  spec's first scenario), three dimensions, \<open>\<gamma> = 5/3\<close>, at most one repeat iteration
  and no sink particles; the same with \<open>H_min = 10\<close>; and a gas particle with \<open>h = 1\<close>
  that has found 20 neighbours.
\<close>

definition cfg_example :: params where
  "cfg_example = \<lparr>NUMDIMS = 3, MAXITER = 1, GAMMA = 5 / 3, BLACK_HOLES = False,
     DesNumNgb = 32, MaxNumNgbDeviation = 2, MinGasHsml = 1 / 100,
     BlackHoleNgbFactor = 2, BlackHoleMaxAccretionRadius = 1,
     Ti_Current = 0, Timebase_interval = 1\<rparr>"

definition cfg_high_floor :: params where
  "cfg_high_floor = cfg_example\<lparr>MinGasHsml := 10\<rparr>"

definition gas_example :: particle where
  "gas_example = \<lparr>Type = 0, TimeBin = 0, Ti_begstep = 0, Hsml = 1, NumNgb = 20,
     DensityIterationDone = False, SwallowID = 0, Density = 1, DhsmlDensityFactor = 1,
     DivVel = 0, CurlVel = 0, Rot = (0, 0, 0), Entropy = 1, DtEntropy = 0, Pressure = 1,
     BH_Density = 0, BH_Entropy = 0, BH_Pressure = 0, BH_FeedbackWeightSum = 0,
     BH_SurroundingGasVel = (0, 0, 0)\<rparr>"

definition converged_example :: particle where
  "converged_example = gas_example\<lparr>NumNgb := 32, DensityIterationDone := True\<rparr>"

text \<open>A walk that returns density 1 and 32 neighbours for every target, and no peer results.\<close>

definition result_example :: TreeWalkResultDensity where
  "result_example = \<lparr>Rho = 1, DhsmlDensity = 0, Ngb = 32, Div = 0, Rot_sum = (0, 0, 0),
     SmoothedEntropy = 0, SmoothedPressure = 0, FeedbackWeightSum = 0, GasVel = (0, 0, 0)\<rparr>"

definition walk_example :: "nat \<Rightarrow> walk_results" where
  "walk_example iter P p = (result_example, [])"

text \<open>
  A walk that finds 20 neighbours for every target, whatever its smoothing length (a
  particle alone with too few neighbours), and a walk that finds 20 neighbours in the
  first pass and 32 from then on.
\<close>

definition sparse_result :: TreeWalkResultDensity where
  "sparse_result = result_example\<lparr>Ngb := 20\<rparr>"

definition walk_sparse :: "nat \<Rightarrow> walk_results" where
  "walk_sparse iter P p = (sparse_result, [])"

definition walk_two_pass :: "nat \<Rightarrow> walk_results" where
  "walk_two_pass iter = (if iter = 0 then walk_sparse iter else walk_example iter)"

text \<open>Particle 3 is marked done, every other particle is the gas particle above.\<close>

definition state_example :: dstate where
  "state_example =
     \<lparr>Part = (\<lambda>i. if i = 3 then gas_example\<lparr>DensityIterationDone := True\<rparr> else gas_example),
      Left = (\<lambda>i. 0), Right = (\<lambda>i. 0)\<rparr>"

text \<open>
  The example state after a first pass in which particle 7 finds 20 neighbours (its
  smoothing length grows to 1.2, its lower bracket is 1); after a second pass in which
  it finds 32 and converges; and after a second pass in which it finds 20 again.
\<close>

definition state_after_first :: dstate where
  "state_after_first =
     state_example\<lparr>Part := (Part state_example)(7 := gas_example\<lparr>Hsml := 6 / 5\<rparr>),
                    Left := (Left state_example)(7 := 1),
                    Right := (Right state_example)(7 := 0)\<rparr>"

definition state_after_second :: dstate where
  "state_after_second =
     state_after_first\<lparr>Part := (Part state_after_first)
                          (7 := gas_example\<lparr>Hsml := 6 / 5, NumNgb := 32,
                                            DensityIterationDone := True\<rparr>),
                        Left := (Left state_after_first)(7 := 1),
                        Right := (Right state_after_first)(7 := 0)\<rparr>"

definition state_after_sparse :: dstate where
  "state_after_sparse =
     state_after_first\<lparr>Part := (Part state_after_first)(7 := gas_example\<lparr>Hsml := 36 / 25\<rparr>),
                        Left := (Left state_after_first)(7 := 6 / 5),
                        Right := (Right state_after_first)(7 := 0)\<rparr>"

text \<open>A well-conditioned and an ill-conditioned cell for the gradient reconstruction.\<close>

definition cell_example :: gas_cell where
  "cell_example = \<lparr>ConditionNumber = 10, NV_T = ((1, 0, 0), (0, 2, 0), (0, 0, 3)),
     DhsmlNgbFactor = 1, SphP_Density = 2\<rparr>"

definition cell_degenerate :: gas_cell where
  "cell_degenerate = cell_example\<lparr>ConditionNumber := 2000\<rparr>"

section \<open>Properties of gradients.c\<close>

subsection \<open>Auxiliary facts\<close>

lemma DMIN_min: "DMIN a b = min a b"
  by (simp add: DMIN_def min_def)

lemma DMAX_max: "DMAX a b = max a b"
  by (simp add: DMAX_def max_def)

lemma sumsq_zero_iff:
  "(g0 * g0 + g1 * g1 + g2 * g2 = 0) = (g0 = 0 \<and> g1 = 0 \<and> g2 = (0::real))"
  by (simp add: add_nonneg_eq_0_iff)

lemma sumsq_pos_iff:
  "(0 < g0 * g0 + g1 * g1 + g2 * g2) = ((g0, g1, g2) \<noteq> (0::real, 0::real, 0::real))"
proof -
  have "0 \<le> g0 * g0 + g1 * g1 + g2 * g2" by simp
  then have "(0 < g0 * g0 + g1 * g1 + g2 * g2) = (g0 * g0 + g1 * g1 + g2 * g2 \<noteq> 0)"
    by (simp only: less_le) auto
  then show ?thesis by (simp only: sumsq_zero_iff) auto
qed

lemma vnorm_zero_iff: "vnorm g = 0 \<longleftrightarrow> g = (0, 0, 0)"
  by (cases g) (simp add: vnorm_def sumsq_zero_iff)

lemma vnorm_nonneg: "0 \<le> vnorm g"
  by (cases g) (simp add: vnorm_def)

lemma vnorm_vscale: "vnorm (vscale c g) = \<bar>c\<bar> * vnorm g"
proof (cases g)
  case (fields g0 g1 g2)
  have "g0 * c * (g0 * c) + g1 * c * (g1 * c) + g2 * c * (g2 * c) =
        c\<^sup>2 * (g0 * g0 + g1 * g1 + g2 * g2)"
    by (simp add: power2_eq_square algebra_simps)
  then show ?thesis
    by (simp add: fields vnorm_def vscale_def real_sqrt_mult)
qed

lemma vscale_zero: "vscale 0 g = (0, 0, 0)"
  by (cases g) (simp add: vscale_def)

lemma envelope_nonneg: "0 \<le> envelope dmax dmin \<tau>"
  by (simp add: envelope_def Let_def min_def max_def)

lemma limiter_coefficient_envelope:
  "limiter_coefficient g dmax dmin \<alpha> h \<tau> = envelope dmax dmin \<tau> / (\<alpha> * h * vnorm g)"
  by (simp add: limiter_coefficient_def envelope_def Let_def)

lemma sqrt_16: "sqrt 16 = 4"
  by (rule real_sqrt_unique) simp_all

lemma sqrt_9: "sqrt 9 = 3"
  by (rule real_sqrt_unique) simp_all

subsection \<open>What the limiter computes\<close>

lemma local_slopelimiter_nonzero:
  assumes nz: "alim * h \<noteq> 0" and pos: "0 < g0 * g0 + g1 * g1 + g2 * g2"
  shows "local_slopelimiter (g0, g1, g2) valmax valmin alim h shoot_tol =
           Inr (let c = limiter_coefficient (g0, g1, g2) valmax valmin alim h shoot_tol
                in if c < 1 then vscale c (g0, g1, g2) else (g0, g1, g2))"
proof -
  have "sqrt (g0 * g0 + g1 * g1 + g2 * g2) \<noteq> 0" using pos by simp
  with nz have d: "fdiv 1 (alim * h * sqrt (g0 * g0 + g1 * g1 + g2 * g2)) =
      Inr (1 / (alim * h * sqrt (g0 * g0 + g1 * g1 + g2 * g2)))"
    by (simp add: fdiv_def)
  show ?thesis
  proof (cases "0 < shoot_tol")
    case True
    show ?thesis
      unfolding local_slopelimiter_def limiter_coefficient_def vnorm_def vscale_def
        DMIN_min DMAX_max Let_def prod.case d add_0 if_P [OF pos] sum.case if_P [OF True]
      by (simp only: if_distrib [of Inr])
  next
    case False
    show ?thesis
      unfolding local_slopelimiter_def limiter_coefficient_def vnorm_def vscale_def
        DMIN_min DMAX_max Let_def prod.case d add_0 if_P [OF pos] sum.case if_not_P [OF False]
      by (simp only: if_distrib [of Inr])
  qed
qed

lemma local_slopelimiter_eq:
  assumes "alim * h \<noteq> 0"
  shows "local_slopelimiter g valmax valmin alim h shoot_tol =
           Inr (if g = (0, 0, 0) then g
                else let c = limiter_coefficient g valmax valmin alim h shoot_tol
                     in if c < 1 then vscale c g else g)"
proof (cases g)
  case (fields g0 g1 g2)
  show ?thesis
  proof (cases "g = (0, 0, 0)")
    case True
    then show ?thesis by (simp add: local_slopelimiter_def)
  next
    case False
    then have pos: "0 < g0 * g0 + g1 * g1 + g2 * g2"
      using fields sumsq_pos_iff [of g0 g1 g2] by simp
    show ?thesis
      unfolding fields
      using local_slopelimiter_nonzero [OF assms pos, of valmax valmin shoot_tol] False fields
      by (simp only: if_False)
  qed
qed

lemma limiter_example_code:
  "local_slopelimiter (4, 0, 0) 3 (- 3) (1 / 2) 2 (1 / 2) = Inr (3, 0, 0)"
  by (simp add: local_slopelimiter_def fdiv_def DMIN_def DMAX_def sqrt_16 Let_def)

lemma limiter_example_again:
  "local_slopelimiter (3, 0, 0) 3 (- 3) (1 / 2) 2 (1 / 2) = Inr (3, 0, 0)"
  by (simp add: local_slopelimiter_def fdiv_def DMIN_def DMAX_def sqrt_9 Let_def)

text \<open>
  Claim C4, as stated: with \<open>M = min(|\<Delta>\<phi>_max|, |\<Delta>\<phi>_min|)\<close> and
  \<open>A = max(|\<Delta>\<phi>_max|, |\<Delta>\<phi>_min|)\<close> the limiter computes
  \<open>c = 1 / (\<alpha> h |g|) \<cdot> (M + \<tau> A if \<tau> > 0 else M)\<close> and scales \<open>g\<close> by \<open>c\<close> when \<open>c < 1\<close>.
  This fails. For \<open>g = (4, 0, 0)\<close>, envelopes \<open>3\<close> and \<open>-3\<close>, \<open>\<alpha> = 1/2\<close>, \<open>h = 2\<close> and
  \<open>\<tau> = 1/2\<close> the stated coefficient is \<open>4.5 / 4 \<ge> 1\<close> and would leave \<open>g\<close> alone, while
  the code multiplies \<open>1 / (\<alpha> h |g|)\<close> by \<^verbatim>\<open>DMIN(abs_min + shoot_tol*abs_max, abs_max)\<close>,
  here \<open>3\<close>, and returns \<open>(3, 0, 0)\<close>.
\<close>

theorem slopelimiter_uncapped_counterexample:
  "local_slopelimiter (4, 0, 0) 3 (- 3) (1 / 2) 2 (1 / 2) = Inr (3, 0, 0) \<and>
   slopelimiter_as_specified (4, 0, 0) 3 (- 3) (1 / 2) 2 (1 / 2) = (4, 0, 0)"
  by (simp add: limiter_example_code slopelimiter_as_specified_def vnorm_def vscale_def
      sqrt_16 Let_def)

text \<open>
  Claim C4, amended: for \<open>\<alpha> h \<noteq> 0\<close>, \<open>local_slopelimiter\<close> leaves a zero gradient
  unchanged; otherwise it computes
  \<open>c = 1 / (\<alpha> h |g|) \<cdot> (min(M + \<tau> A, A) if \<tau> > 0 else M)\<close>, multiplies every component of
  \<open>g\<close> by \<open>c\<close> when \<open>c < 1\<close> and leaves \<open>g\<close> unchanged when \<open>c \<ge> 1\<close>.
\<close>

theorem slopelimiter_capped:
  assumes "alim * h \<noteq> 0"
  shows "local_slopelimiter g valmax valmin alim h shoot_tol =
           Inr (if g = (0, 0, 0) then g
                else let M = min \<bar>valmax\<bar> \<bar>valmin\<bar>;
                         A = max \<bar>valmax\<bar> \<bar>valmin\<bar>;
                         c = 1 / (alim * h * vnorm g)
                               * (if shoot_tol > 0 then min (M + shoot_tol * A) A else M)
                     in if c < 1 then vscale c g else g)"
  using local_slopelimiter_eq [OF assms, of g valmax valmin shoot_tol]
  by (simp add: limiter_coefficient_def Let_def)

theorem slopelimiter_capped_witness:
  "(1 / 2 :: real) * 2 \<noteq> 0 \<and>
   local_slopelimiter (4, 0, 0) 3 (- 3) (1 / 2) 2 (1 / 2) = Inr (vscale (3 / 4) (4, 0, 0)) \<and>
   local_slopelimiter (0, 0, 0) 3 (- 3) (1 / 2) 2 (1 / 2) = Inr (0, 0, 0)"
proof -
  have nz: "(1 / 2 :: real) * 2 \<noteq> 0" by simp
  have n: "vnorm (4, 0, 0) = 4" by (simp add: vnorm_def sqrt_16)
  have "local_slopelimiter (4, 0, 0) 3 (- 3) (1 / 2) 2 (1 / 2) = Inr (vscale (3 / 4) (4, 0, 0))"
    using slopelimiter_capped [OF nz, of "(4, 0, 0)" 3 "- 3" "1 / 2"] by (simp add: n Let_def)
  moreover have "local_slopelimiter (0, 0, 0) 3 (- 3) (1 / 2) 2 (1 / 2) = Inr (0, 0, 0)"
    using slopelimiter_capped [OF nz, of "(0, 0, 0)" 3 "- 3" "1 / 2"] by simp
  ultimately show ?thesis using nz by blast
qed

subsection \<open>Idempotence of the limiter in exact arithmetic\<close>

lemma limiter_coefficient_rescaled:
  assumes "0 < \<alpha>" "0 < h" "g \<noteq> (0, 0, 0)"
    and c: "c = limiter_coefficient g dmax dmin \<alpha> h \<tau>" and "0 < c"
  shows "limiter_coefficient (vscale c g) dmax dmin \<alpha> h \<tau> = 1"
proof -
  have n: "0 < vnorm g" using assms(3) vnorm_zero_iff [of g] vnorm_nonneg [of g] by simp
  have d: "0 < \<alpha> * h * vnorm g" using assms(1,2) n by simp
  have "c = envelope dmax dmin \<tau> / (\<alpha> * h * vnorm g)"
    using c by (simp only: limiter_coefficient_envelope)
  then have e: "envelope dmax dmin \<tau> = c * (\<alpha> * h * vnorm g)"
    using d by (simp only: nonzero_eq_divide_eq [OF less_imp_neq [OF d, symmetric]])
  have "limiter_coefficient (vscale c g) dmax dmin \<alpha> h \<tau> =
        envelope dmax dmin \<tau> / (\<alpha> * h * (c * vnorm g))"
    using \<open>0 < c\<close> by (simp add: limiter_coefficient_envelope vnorm_vscale)
  also have "\<dots> = (c * (\<alpha> * h * vnorm g)) / (c * (\<alpha> * h * vnorm g))"
    by (simp add: e mult_ac)
  also have "\<dots> = 1"
  proof -
    have "0 < c * (\<alpha> * h * vnorm g)" using d \<open>0 < c\<close> by (rule mult_pos_pos [rotated])
    then show ?thesis by (simp only: divide_self [OF less_imp_neq [symmetric]])
  qed
  finally show ?thesis .
qed

text \<open>
  Were the arithmetic exact, the limiter would be idempotent for \<open>\<alpha> > 0\<close> and \<open>h > 0\<close>:
  the rescaled gradient has the coefficient exactly \<open>1\<close>, so \<^verbatim>\<open>cfac < 1\<close> fails at the
  second application. This is a fact about \<open>local_slopelimiter\<close>, the real-number reading
  of the code, and not about the program, whose arithmetic rounds; the next subsections
  treat the rounded arithmetic.
\<close>

lemma slopelimiter_exact_arithmetic:
  assumes a: "0 < alim" and h: "0 < h"
  shows "\<exists>g'. local_slopelimiter g valmax valmin alim h shoot_tol = Inr g' \<and>
              local_slopelimiter g' valmax valmin alim h shoot_tol = Inr g' \<and>
              (g' = (0, 0, 0) \<or> 1 \<le> limiter_coefficient g' valmax valmin alim h shoot_tol)"
proof -
  have nz: "alim * h \<noteq> 0" using a h by simp
  define c where "c = limiter_coefficient g valmax valmin alim h shoot_tol"
  note F = local_slopelimiter_eq [OF nz]
  show ?thesis
  proof (cases "g = (0, 0, 0) \<or> \<not> c < 1")
    case True
    then have "local_slopelimiter g valmax valmin alim h shoot_tol = Inr g"
      by (auto simp add: F c_def Let_def)
    moreover have "g = (0, 0, 0) \<or> 1 \<le> limiter_coefficient g valmax valmin alim h shoot_tol"
      using True by (auto simp add: c_def)
    ultimately show ?thesis by simp
  next
    case False
    then have g: "g \<noteq> (0, 0, 0)" and c1: "c < 1" by simp_all
    have first: "local_slopelimiter g valmax valmin alim h shoot_tol = Inr (vscale c g)"
      using g c1 by (simp add: F c_def Let_def)
    have n: "0 < vnorm g" using g vnorm_zero_iff [of g] vnorm_nonneg [of g] by simp
    have c0: "0 \<le> c"
      unfolding c_def limiter_coefficient_envelope
      using envelope_nonneg [of valmax valmin shoot_tol] a h n by simp
    have second: "local_slopelimiter (vscale c g) valmax valmin alim h shoot_tol = Inr (vscale c g) \<and>
        (vscale c g = (0, 0, 0) \<or>
         1 \<le> limiter_coefficient (vscale c g) valmax valmin alim h shoot_tol)"
    proof (cases "c = 0")
      case True
      then show ?thesis by (simp add: F vscale_zero)
    next
      case False
      with c0 have "0 < c" by simp
      from limiter_coefficient_rescaled [OF a h g c_def this]
      show ?thesis by (simp add: F Let_def)
    qed
    from first second show ?thesis by simp
  qed
qed

subsection \<open>Rounding to binary64\<close>

lemma round_even_err: "\<bar>of_int (round_even r) - r\<bar> \<le> 1 / 2"
proof -
  define f where "f = \<lfloor>r\<rfloor>"
  have b: "of_int f \<le> r" "r < of_int f + 1" unfolding f_def by linarith+
  consider "r - of_int f < 1 / 2" | "1 / 2 < r - of_int f" | "r - of_int f = 1 / 2"
    by linarith
  then show ?thesis
  proof cases
    case 1
    then have "round_even r = f" by (simp add: round_even_def Let_def f_def)
    then show ?thesis using 1 b by simp
  next
    case 2
    then have "round_even r = f + 1" by (simp add: round_even_def Let_def f_def)
    then show ?thesis using 2 b by simp
  next
    case 3
    then have "round_even r = f \<or> round_even r = f + 1"
      by (simp add: round_even_def Let_def f_def)
    then show ?thesis using 3 b by auto
  qed
qed

lemma round_even_near:
  assumes "\<bar>r - of_int m\<bar> < 1 / 2"
  shows "round_even r = m"
proof -
  have e: "\<bar>of_int (round_even r) - r\<bar> \<le> 1 / 2" by (rule round_even_err)
  have "\<bar>(of_int (round_even r) :: real) - of_int m\<bar> < 1" using assms e by linarith
  then have "\<bar>(of_int (round_even r - m) :: real)\<bar> < 1" by simp
  then have "\<bar>round_even r - m\<bar> < 1" by linarith
  then show ?thesis by simp
qed

lemma ulp_pos: "0 < ulp x"
  by (simp add: ulp_def)

lemma ulp_le:
  assumes "x \<noteq> 0"
  shows "2 ^ 52 * ulp x \<le> \<bar>x\<bar>"
proof -
  have p: "0 < \<bar>x\<bar>" using assms by simp
  have "2 ^ 52 * ulp x = 2 powr 52 * 2 powr of_int (\<lfloor>log 2 \<bar>x\<bar>\<rfloor> - 52)"
    by (simp add: ulp_def)
  also have "\<dots> = 2 powr of_int \<lfloor>log 2 \<bar>x\<bar>\<rfloor>"
    by (simp only: powr_add [symmetric]) simp
  also have "\<dots> \<le> 2 powr log 2 \<bar>x\<bar>"
    by (rule powr_mono) simp_all
  also have "\<dots> = \<bar>x\<bar>" using p by simp
  finally show ?thesis .
qed

lemma ulp_eq:
  assumes w: "w = 2 powr of_int k" and lo: "2 ^ 52 * w \<le> \<bar>x\<bar>" and hi: "\<bar>x\<bar> < 2 ^ 53 * w"
  shows "ulp x = w"
proof -
  have wp: "0 < w" using w by simp
  have "0 < 2 ^ 52 * w" using wp by simp
  then have p: "0 < \<bar>x\<bar>" using lo by linarith
  have a: "2 powr of_int (k + 52) = 2 ^ 52 * w"
    by (simp add: w powr_add)
  have b: "2 powr (of_int (k + 52) + 1) = 2 ^ 53 * w"
    by (simp add: w powr_add)
  have "\<lfloor>log 2 \<bar>x\<bar>\<rfloor> = k + 52"
    using floor_log_eq_powr_iff [of "\<bar>x\<bar>" 2 "k + 52"] p lo hi a b by simp
  then show ?thesis by (simp add: ulp_def w)
qed

lemma fl_0: "fl 0 = 0"
  by (simp add: fl_def)

text \<open>The relative error of one rounding is at most \<open>2^(-53)\<close>.\<close>

lemma fl_err: "\<bar>fl x - x\<bar> \<le> \<bar>x\<bar> / 2 ^ 53"
proof (cases "x = 0")
  case True
  then show ?thesis by (simp add: fl_def)
next
  case False
  define w where "w = ulp x"
  have wp: "0 < w" by (simp add: w_def ulp_pos)
  have "fl x - x = (of_int (round_even (x / w)) - x / w) * w"
    using False wp by (simp add: fl_def w_def algebra_simps)
  then have "\<bar>fl x - x\<bar> = \<bar>of_int (round_even (x / w)) - x / w\<bar> * w"
    using wp by (simp add: abs_mult)
  also have "\<dots> \<le> 1 / 2 * w"
    using wp round_even_err [of "x / w"] by (simp only: mult_right_mono less_imp_le)
  also have "\<dots> \<le> \<bar>x\<bar> / 2 ^ 53"
    using ulp_le [OF False] by (simp add: w_def)
  finally show ?thesis .
qed

text \<open>
  Rounding a number below \<open>2^53\<close> whose binade is known: with \<open>2^52 \<le> |x| 2^n < 2^53\<close>
  the binary64 numbers near \<open>x\<close> are the multiples of \<open>2^(-n)\<close>.
\<close>

lemma fl_eval:
  assumes "w = 2 powr of_int k" and "2 ^ 52 * w \<le> \<bar>x\<bar>" and "\<bar>x\<bar> < 2 ^ 53 * w"
  shows "fl x = of_int (round_even (x / w)) * w"
proof -
  have "0 < w" using assms(1) by simp
  then have "0 < 2 ^ 52 * w" by simp
  then have "x \<noteq> 0" using assms(2) by auto
  then show ?thesis by (simp add: fl_def ulp_eq [OF assms])
qed

lemma fl_eval_nat:
  assumes "2 ^ 52 \<le> \<bar>x\<bar> * 2 ^ n" and "\<bar>x\<bar> * 2 ^ n < 2 ^ 53"
  shows "fl x = of_int (round_even (x * 2 ^ n)) / 2 ^ n"
proof -
  have w: "1 / 2 ^ n = (2::real) powr of_int (- int n)"
    by (simp add: powr_minus powr_realpow inverse_eq_divide)
  have "fl x = of_int (round_even (x / (1 / 2 ^ n))) * (1 / 2 ^ n)"
    using assms by (intro fl_eval [OF w]) (simp_all add: field_simps)
  then show ?thesis by simp
qed

lemma fl_near_nat:
  assumes "2 ^ 52 \<le> \<bar>x\<bar> * 2 ^ n" and "\<bar>x\<bar> * 2 ^ n < 2 ^ 53"
    and "\<bar>x * 2 ^ n - of_int m\<bar> < 1 / 2"
  shows "fl x = of_int m / 2 ^ n"
  using round_even_near [OF assms(3)] fl_eval_nat [OF assms(1,2)] by simp

lemma eps64_bounds: "0 < 1 - eps64" "1 - eps64 \<le> 1" "1 \<le> 1 + eps64" "0 < 1 + eps64"
  by (simp_all add: eps64_def)

lemma fl_ge:
  assumes "0 \<le> L" and "L \<le> x"
  shows "(1 - eps64) * L \<le> fl x"
proof -
  have x: "0 \<le> x" using assms by simp
  have "\<bar>fl x - x\<bar> \<le> eps64 * x" using fl_err [of x] x by (simp add: eps64_def)
  then have "(1 - eps64) * x \<le> fl x" by (simp add: algebra_simps abs_le_iff)
  moreover have "(1 - eps64) * L \<le> (1 - eps64) * x"
    using assms(2) eps64_bounds(1) by (simp only: mult_left_mono less_imp_le)
  ultimately show ?thesis by simp
qed

lemma fl_le:
  assumes "0 \<le> x" and "x \<le> U"
  shows "fl x \<le> (1 + eps64) * U"
proof -
  have "\<bar>fl x - x\<bar> \<le> eps64 * x" using fl_err [of x] assms(1) by (simp add: eps64_def)
  then have "fl x \<le> (1 + eps64) * x" by (simp add: algebra_simps abs_le_iff)
  moreover have "(1 + eps64) * x \<le> (1 + eps64) * U"
    using assms(2) eps64_bounds(4) by (simp only: mult_left_mono less_imp_le)
  ultimately show ?thesis by simp
qed

lemma fl_nonneg: "0 \<le> x \<Longrightarrow> 0 \<le> fl x"
  using fl_ge [of 0 x] by simp

lemma fl_pos:
  assumes "0 < x"
  shows "0 < fl x"
proof -
  have "0 < (1 - eps64) * x" using assms eps64_bounds(1) by simp
  moreover have "(1 - eps64) * x \<le> fl x" using assms by (intro fl_ge) simp_all
  ultimately show ?thesis by simp
qed

lemma fl_abs_le: "\<bar>fl x\<bar> \<le> (1 + eps64) * \<bar>x\<bar>"
proof -
  have "\<bar>fl x - x\<bar> \<le> eps64 * \<bar>x\<bar>" using fl_err [of x] by (simp add: eps64_def)
  then show ?thesis by (simp add: algebra_simps)
qed

lemma fl_abs_ge: "(1 - eps64) * \<bar>x\<bar> \<le> \<bar>fl x\<bar>"
proof -
  have "\<bar>fl x - x\<bar> \<le> eps64 * \<bar>x\<bar>" using fl_err [of x] by (simp add: eps64_def)
  then show ?thesis by (simp add: algebra_simps)
qed

lemma fl_eq_0_iff: "fl x = 0 \<longleftrightarrow> x = 0"
proof
  assume "fl x = 0"
  then have "(1 - eps64) * \<bar>x\<bar> \<le> 0" using fl_abs_ge [of x] by simp
  then have "\<bar>x\<bar> \<le> 0" using eps64_bounds(1) by (simp add: mult_le_0_iff)
  then show "x = 0" by simp
next
  assume "x = 0"
  then show "fl x = 0" by (simp add: fl_0)
qed

subsection \<open>A run of the limiter in binary64 arithmetic\<close>

text \<open>
  The gradient \<open>(5, 0, 0)\<close> with envelopes \<open>3\<close> and \<open>-3\<close>, \<open>\<alpha> = 1/2\<close>, \<open>h = 2\<close> and no
  tolerance. First application: \<^verbatim>\<open>d_abs = 25\<close>, its root is \<open>5\<close>, \<^verbatim>\<open>alim * h = 1\<close>,
  \<^verbatim>\<open>1 / 5\<close> rounds to \<open>7205759403792794 / 2^55\<close>, three times that is halfway between
  two binary64 numbers and rounds to the even one, \<open>5404319552844596 / 2^53\<close> (printed
  \<^verbatim>\<open>0.6000000000000001\<close>), and \<open>5\<close> times that is \<open>3 + 2^(-51)\<close>
  (\<^verbatim>\<open>3.0000000000000004\<close>). Second application: the square rounds to \<open>9 + 2^(-48)\<close>,
  its root to \<open>3 + 2^(-51)\<close>, the reciprocal to \<open>6004799503160660 / 2^54\<close>, three times
  that to \<open>1 - 2^(-52)\<close> (\<^verbatim>\<open>0.9999999999999998\<close>), which is below \<open>1\<close>, and the gradient
  is rescaled to \<open>3 - 2^(-51)\<close> (\<^verbatim>\<open>2.9999999999999996\<close>).
\<close>

lemma fl_25: "fl 25 = 25"
  by (subst fl_eval_nat [where n = 48]) (simp_all add: round_even_def Let_def)

lemma fl_5: "fl 5 = 5"
  by (subst fl_eval_nat [where n = 50]) (simp_all add: round_even_def Let_def)

lemma fl_1: "fl 1 = 1"
  by (subst fl_eval_nat [where n = 52]) (simp_all add: round_even_def Let_def)

lemma fl_fifth: "fl (1 / 5) = 7205759403792794 / 2 ^ 55"
  by (subst fl_eval_nat [where n = 55]) (simp_all add: round_even_def Let_def)

lemma fl_first_cfac: "fl (7205759403792794 / 2 ^ 55 * 3) = 5404319552844596 / 2 ^ 53"
  by (subst fl_eval_nat [where n = 53]) (simp_all add: round_even_def Let_def)

lemma fl_first_grad: "fl (5 * (5404319552844596 / 2 ^ 53)) = 3 + 1 / 2 ^ 51"
  by (subst fl_eval_nat [where n = 51]) (simp_all add: round_even_def Let_def)

lemma sqrt_25: "sqrt 25 = 5"
  by (rule real_sqrt_unique) simp_all

lemma limiter_b64_first:
  "local_slopelimiter_b64 (5, 0, 0) 3 (- 3) (1 / 2) 2 0 = Inr (3 + 1 / 2 ^ 51, 0, 0)"
proof -
  define c0 :: real where "c0 = 7205759403792794 / 2 ^ 55"
  define c :: real where "c = 5404319552844596 / 2 ^ 53"
  have q: "fl (1 / 5) = c0" unfolding c0_def by (rule fl_fifth)
  have m: "fl (c0 * 3) = c" unfolding c0_def c_def by (rule fl_first_cfac)
  have l: "c < 1" by (simp add: c_def)
  have g: "fl (5 * c) = 3 + 1 / 2 ^ 51" unfolding c_def by (rule fl_first_grad)
  show ?thesis
    unfolding local_slopelimiter_b64_def
    by (simp add: Let_def fl_0 fl_25 sqrt_25 fl_5 fl_1 fdiv_def DMIN_def q m l g)
qed

lemma fl_second_square: "fl ((3 + 1 / 2 ^ 51) * (3 + 1 / 2 ^ 51)) = 9 + 1 / 2 ^ 48"
  by (subst fl_eval_nat [where n = 49]) (simp_all add: round_even_def Let_def)

lemma fl_second_sum: "fl (9 + 1 / 2 ^ 48) = 9 + 1 / 2 ^ 48"
  by (subst fl_eval_nat [where n = 49]) (simp_all add: round_even_def Let_def)

lemma sqrt_second_bounds:
  "(6755399441055745 - 1 / 2) / 2 ^ 51 < sqrt (9 + 1 / 2 ^ 48)"
  "sqrt (9 + 1 / 2 ^ 48) < (6755399441055745 + 1 / 2) / 2 ^ 51"
  by (rule real_less_rsqrt, simp add: power2_eq_square)
    (rule real_less_lsqrt, simp_all add: power2_eq_square)

lemma fl_second_sqrt: "fl (sqrt (9 + 1 / 2 ^ 48)) = 3 + 1 / 2 ^ 51"
proof -
  define s :: real where "s = sqrt (9 + 1 / 2 ^ 48)"
  have b: "(6755399441055745 - 1 / 2) / 2 ^ 51 < s" "s < (6755399441055745 + 1 / 2) / 2 ^ 51"
    unfolding s_def by (rule sqrt_second_bounds)+
  have p: "0 < s" using b(1) by simp
  have "fl s = of_int 6755399441055745 / 2 ^ 51"
  proof (rule fl_near_nat)
    show "2 ^ 52 \<le> \<bar>s\<bar> * 2 ^ 51" using b(1) p by simp
    show "\<bar>s\<bar> * 2 ^ 51 < 2 ^ 53" using b(2) p by simp
    have "6755399441055745 - 1 / 2 < s * 2 ^ 51" "s * 2 ^ 51 < 6755399441055745 + 1 / 2"
      using b by (simp_all add: field_simps)
    then show "\<bar>s * 2 ^ 51 - of_int 6755399441055745\<bar> < 1 / 2"
      unfolding abs_less_iff by simp
  qed
  then show ?thesis by (simp add: s_def)
qed

lemma fl_second_product: "fl (3 + 1 / 2 ^ 51) = 3 + 1 / 2 ^ 51"
  by (subst fl_eval_nat [where n = 51]) (simp_all add: round_even_def Let_def)

lemma fl_second_quotient: "fl (1 / (3 + 1 / 2 ^ 51)) = 6004799503160660 / 2 ^ 54"
  by (subst fl_eval_nat [where n = 54]) (simp_all add: round_even_def Let_def)

lemma fl_second_cfac: "fl (6004799503160660 / 2 ^ 54 * 3) = 1 - 1 / 2 ^ 52"
  by (subst fl_eval_nat [where n = 53]) (simp_all add: round_even_def Let_def)

lemma fl_second_grad: "fl ((3 + 1 / 2 ^ 51) * (1 - 1 / 2 ^ 52)) = 3 - 1 / 2 ^ 51"
  by (subst fl_eval_nat [where n = 51]) (simp_all add: round_even_def Let_def)

lemma limiter_b64_second:
  "cfac_b64 (3 + 1 / 2 ^ 51, 0, 0) 3 (- 3) (1 / 2) 2 0 = 1 - 1 / 2 ^ 52"
  "local_slopelimiter_b64 (3 + 1 / 2 ^ 51, 0, 0) 3 (- 3) (1 / 2) 2 0 = Inr (3 - 1 / 2 ^ 51, 0, 0)"
proof -
  define g :: real where "g = 3 + 1 / 2 ^ 51"
  define d :: real where "d = 9 + 1 / 2 ^ 48"
  define c0 :: real where "c0 = 6004799503160660 / 2 ^ 54"
  define c :: real where "c = 1 - 1 / 2 ^ 52"
  have d1: "fl (g * g) = d" unfolding g_def d_def by (rule fl_second_square)
  have d2: "fl d = d" unfolding d_def by (rule fl_second_sum)
  have dp: "0 < d" by (simp add: d_def)
  have s: "fl (sqrt d) = g" unfolding g_def d_def by (rule fl_second_sqrt)
  have t: "fl g = g" unfolding g_def by (rule fl_second_product)
  have gn: "g \<noteq> 0" by (simp add: g_def)
  have q: "fl (1 / g) = c0" unfolding g_def c0_def by (rule fl_second_quotient)
  have m: "fl (c0 * 3) = c" unfolding c0_def c_def by (rule fl_second_cfac)
  have l: "c < 1" by (simp add: c_def)
  have r: "fl (g * c) = 3 - 1 / 2 ^ 51" unfolding g_def c_def by (rule fl_second_grad)
  have "cfac_b64 (g, 0, 0) 3 (- 3) (1 / 2) 2 0 = c"
    unfolding cfac_b64_def sumsq_b64_def envelope_b64_def
    by (simp add: fl_0 fl_1 DMIN_def d1 d2 s t q m)
  then show "cfac_b64 (3 + 1 / 2 ^ 51, 0, 0) 3 (- 3) (1 / 2) 2 0 = 1 - 1 / 2 ^ 52"
    by (simp only: g_def c_def)
  have "local_slopelimiter_b64 (g, 0, 0) 3 (- 3) (1 / 2) 2 0 = Inr (3 - 1 / 2 ^ 51, 0, 0)"
    unfolding local_slopelimiter_b64_def
    by (simp add: Let_def fl_0 fl_1 fdiv_def DMIN_def d1 d2 dp s t gn q m l r)
  then show "local_slopelimiter_b64 (3 + 1 / 2 ^ 51, 0, 0) 3 (- 3) (1 / 2) 2 0 =
      Inr (3 - 1 / 2 ^ 51, 0, 0)"
    by (simp only: g_def)
qed

text \<open>
  Claim C7, as stated: \<open>local_slopelimiter\<close> is idempotent; a second application to the
  output of the first, with the same envelopes, aggressiveness, characteristic length and
  tolerance, leaves the gradient unchanged, because the first result already has
  \<open>c \<ge> 1\<close>. This fails in the arithmetic of the program. For \<open>g = (5, 0, 0)\<close>, envelopes
  \<open>3\<close> and \<open>-3\<close>, \<open>\<alpha> = 1/2\<close>, \<open>h = 2\<close> and \<open>\<tau> = 0\<close> the first application returns
  \<open>(3 + 2^(-51), 0, 0)\<close>; for that gradient the code computes \<open>c = 1 - 2^(-52) < 1\<close>, and
  the second application returns \<open>(3 - 2^(-51), 0, 0)\<close>.
\<close>

theorem slopelimiter_twice_counterexample:
  "local_slopelimiter_b64 (5, 0, 0) 3 (- 3) (1 / 2) 2 0 = Inr (3 + 1 / 2 ^ 51, 0, 0) \<and>
   cfac_b64 (3 + 1 / 2 ^ 51, 0, 0) 3 (- 3) (1 / 2) 2 0 = 1 - 1 / 2 ^ 52 \<and>
   local_slopelimiter_b64 (3 + 1 / 2 ^ 51, 0, 0) 3 (- 3) (1 / 2) 2 0 =
     Inr (3 - 1 / 2 ^ 51, 0, 0) \<and>
   (3 - 1 / 2 ^ 51, 0, 0) \<noteq> (3 + 1 / 2 ^ 51 :: real, 0 :: real, 0 :: real)"
  unfolding limiter_b64_first limiter_b64_second by simp

subsection \<open>Two applications of the limiter in binary64 arithmetic\<close>

text \<open>
  With \<open>a = 1 - eps64\<close> and \<open>b = 1 + eps64\<close> a rounded nonnegative value lies between
  \<open>a\<close> and \<open>b\<close> times the exact one. The four roundings of \<^verbatim>\<open>d_abs\<close> put it between
  \<open>a^4\<close> and \<open>b^4\<close> times the exact sum of squares.
\<close>

lemma sumsq_b64_lower:
  "(1 - eps64) ^ 4 * (g0 * g0 + g1 * g1 + g2 * g2) \<le> sumsq_b64 (g0, g1, g2)"
proof -
  define a where "a = 1 - eps64"
  have a: "0 \<le> a" "a \<le> 1" using eps64_bounds by (simp_all add: a_def)
  have w2: "a ^ 2 * X \<le> a * X" if "0 \<le> X" for X
  proof -
    have "a * (a * X) \<le> 1 * (a * X)" using a that by (intro mult_right_mono) simp_all
    then show ?thesis by (simp add: power2_eq_square)
  qed
  have w3: "a ^ 3 * X \<le> a * X" if "0 \<le> X" for X
  proof -
    have "a * (a ^ 2 * X) \<le> a * (a * X)" using w2 [OF that] a by (intro mult_left_mono) simp_all
    also have "\<dots> \<le> 1 * (a * X)" using a that by (intro mult_right_mono) simp_all
    finally show ?thesis by (simp add: power3_eq_cube power2_eq_square)
  qed
  have x0: "a * (g0 * g0) \<le> fl (g0 * g0)" unfolding a_def by (intro fl_ge) simp_all
  have x1: "a * (g1 * g1) \<le> fl (g1 * g1)" unfolding a_def by (intro fl_ge) simp_all
  have x2: "a * (g2 * g2) \<le> fl (g2 * g2)" unfolding a_def by (intro fl_ge) simp_all
  have "a * (a * (g0 * g0)) \<le> fl (0 + fl (g0 * g0))"
    unfolding a_def using x0 a by (intro fl_ge) (simp_all add: a_def)
  then have y0: "a ^ 2 * (g0 * g0) \<le> fl (0 + fl (g0 * g0))" by (simp add: power2_eq_square)
  have "a ^ 2 * (g0 * g0 + g1 * g1) \<le> fl (0 + fl (g0 * g0)) + fl (g1 * g1)"
    using y0 x1 w2 [of "g1 * g1"] by (simp add: algebra_simps)
  then have "a * (a ^ 2 * (g0 * g0 + g1 * g1)) \<le> fl (fl (0 + fl (g0 * g0)) + fl (g1 * g1))"
    unfolding a_def using a by (intro fl_ge) (simp_all add: a_def)
  then have y1: "a ^ 3 * (g0 * g0 + g1 * g1) \<le> fl (fl (0 + fl (g0 * g0)) + fl (g1 * g1))"
    by (simp add: power3_eq_cube power2_eq_square)
  have "a ^ 3 * (g0 * g0 + g1 * g1 + g2 * g2) \<le>
          fl (fl (0 + fl (g0 * g0)) + fl (g1 * g1)) + fl (g2 * g2)"
    using y1 x2 w3 [of "g2 * g2"] by (simp add: algebra_simps)
  then have "a * (a ^ 3 * (g0 * g0 + g1 * g1 + g2 * g2)) \<le>
          fl (fl (fl (0 + fl (g0 * g0)) + fl (g1 * g1)) + fl (g2 * g2))"
    unfolding a_def using a by (intro fl_ge) (simp_all add: a_def)
  then show ?thesis
    unfolding sumsq_b64_def prod.case a_def [symmetric]
    by (simp add: power3_eq_cube power4_eq_xxxx)
qed

lemma sumsq_b64_upper:
  "sumsq_b64 (g0, g1, g2) \<le> (1 + eps64) ^ 4 * (g0 * g0 + g1 * g1 + g2 * g2)"
proof -
  define b where "b = 1 + eps64"
  have b: "0 \<le> b" "1 \<le> b" using eps64_bounds by (simp_all add: b_def)
  have w2: "b * X \<le> b ^ 2 * X" if "0 \<le> X" for X
  proof -
    have "1 * (b * X) \<le> b * (b * X)" using b that by (intro mult_right_mono) simp_all
    then show ?thesis by (simp add: power2_eq_square)
  qed
  have w3: "b * X \<le> b ^ 3 * X" if "0 \<le> X" for X
  proof -
    have "1 * (b * X) \<le> b * (b * X)" using b that by (intro mult_right_mono) simp_all
    also have "\<dots> \<le> b * (b ^ 2 * X)" using w2 [OF that] b by (intro mult_left_mono) simp_all
    finally show ?thesis by (simp add: power3_eq_cube power2_eq_square)
  qed
  have x0: "fl (g0 * g0) \<le> b * (g0 * g0)" unfolding b_def by (intro fl_le) simp_all
  have x1: "fl (g1 * g1) \<le> b * (g1 * g1)" unfolding b_def by (intro fl_le) simp_all
  have x2: "fl (g2 * g2) \<le> b * (g2 * g2)" unfolding b_def by (intro fl_le) simp_all
  have n0: "0 \<le> fl (g0 * g0)" and n1: "0 \<le> fl (g1 * g1)" and n2: "0 \<le> fl (g2 * g2)"
    by (simp_all add: fl_nonneg)
  have "fl (0 + fl (g0 * g0)) \<le> b * (b * (g0 * g0))"
    unfolding b_def using x0 n0 by (intro fl_le) (simp_all add: b_def)
  then have y0: "fl (0 + fl (g0 * g0)) \<le> b ^ 2 * (g0 * g0)" by (simp add: power2_eq_square)
  have m0: "0 \<le> fl (0 + fl (g0 * g0))" using n0 by (simp add: fl_nonneg)
  have "fl (0 + fl (g0 * g0)) + fl (g1 * g1) \<le> b ^ 2 * (g0 * g0 + g1 * g1)"
    using y0 x1 w2 [of "g1 * g1"] by (simp add: algebra_simps)
  then have "fl (fl (0 + fl (g0 * g0)) + fl (g1 * g1)) \<le> b * (b ^ 2 * (g0 * g0 + g1 * g1))"
    unfolding b_def using m0 n1 by (intro fl_le) (simp_all add: b_def)
  then have y1: "fl (fl (0 + fl (g0 * g0)) + fl (g1 * g1)) \<le> b ^ 3 * (g0 * g0 + g1 * g1)"
    by (simp add: power3_eq_cube power2_eq_square)
  have m1: "0 \<le> fl (fl (0 + fl (g0 * g0)) + fl (g1 * g1))"
    using m0 n1 by (intro fl_nonneg) simp
  have "fl (fl (0 + fl (g0 * g0)) + fl (g1 * g1)) + fl (g2 * g2) \<le>
          b ^ 3 * (g0 * g0 + g1 * g1 + g2 * g2)"
    using y1 x2 w3 [of "g2 * g2"] by (simp add: algebra_simps)
  then have "fl (fl (fl (0 + fl (g0 * g0)) + fl (g1 * g1)) + fl (g2 * g2)) \<le>
          b * (b ^ 3 * (g0 * g0 + g1 * g1 + g2 * g2))"
    unfolding b_def using m1 n2 by (intro fl_le) (simp_all add: b_def)
  then show ?thesis
    unfolding sumsq_b64_def prod.case b_def [symmetric]
    by (simp add: power3_eq_cube power4_eq_xxxx)
qed

lemma sumsq_b64_pos_iff: "0 < sumsq_b64 g \<longleftrightarrow> g \<noteq> (0, 0, 0)"
proof (cases g)
  case (fields g0 g1 g2)
  show ?thesis
  proof (cases "g = (0, 0, 0)")
    case True
    then show ?thesis by (simp add: sumsq_b64_def fl_0)
  next
    case False
    then have "0 < g0 * g0 + g1 * g1 + g2 * g2"
      using fields sumsq_pos_iff [of g0 g1 g2] by simp
    then have "0 < (1 - eps64) ^ 4 * (g0 * g0 + g1 * g1 + g2 * g2)"
      using eps64_bounds(1) by simp
    then have "0 < sumsq_b64 (g0, g1, g2)"
      using sumsq_b64_lower [of g0 g1 g2] by linarith
    then show ?thesis using False fields by simp
  qed
qed

lemma envelope_b64_nonneg: "0 \<le> envelope_b64 valmax valmin shoot_tol"
proof (cases "0 < shoot_tol")
  case True
  have "0 \<le> shoot_tol * DMAX \<bar>valmax\<bar> \<bar>valmin\<bar>"
    using True by (simp add: DMAX_def)
  then have "0 \<le> fl (shoot_tol * DMAX \<bar>valmax\<bar> \<bar>valmin\<bar>)" by (rule fl_nonneg)
  moreover have "0 \<le> DMIN \<bar>valmax\<bar> \<bar>valmin\<bar>" by (simp add: DMIN_def)
  ultimately have "0 \<le> fl (DMIN \<bar>valmax\<bar> \<bar>valmin\<bar> + fl (shoot_tol * DMAX \<bar>valmax\<bar> \<bar>valmin\<bar>))"
    by (intro fl_nonneg) simp
  moreover have "0 \<le> DMAX \<bar>valmax\<bar> \<bar>valmin\<bar>" by (simp add: DMAX_def)
  ultimately show ?thesis
    using True unfolding envelope_b64_def DMIN_def [of "fl _"] by simp
next
  case False
  then show ?thesis by (simp add: envelope_b64_def DMIN_def)
qed

lemma sqrt_d_bounds:
  assumes r: "0 \<le> r" and dl: "(1 - eps64) ^ 4 * r\<^sup>2 \<le> d" and du: "d \<le> (1 + eps64) ^ 4 * r\<^sup>2"
  shows "(1 - eps64) ^ 2 * r \<le> sqrt d" and "sqrt d \<le> (1 + eps64) ^ 2 * r"
proof -
  have "((1 - eps64) ^ 2 * r)\<^sup>2 = (1 - eps64) ^ 4 * r\<^sup>2"
    by (simp add: power_mult_distrib)
  then show "(1 - eps64) ^ 2 * r \<le> sqrt d"
    using dl by (intro real_le_rsqrt) simp
  have "((1 + eps64) ^ 2 * r)\<^sup>2 = (1 + eps64) ^ 4 * r\<^sup>2"
    by (simp add: power_mult_distrib)
  moreover have "0 \<le> (1 + eps64) ^ 2 * r" using r by simp
  ultimately show "sqrt d \<le> (1 + eps64) ^ 2 * r"
    using du by (intro real_le_lsqrt) simp_all
qed

text \<open>
  The coefficient computed from a rounded sum of squares \<open>d\<close> of a vector of norm \<open>r\<close>,
  with \<open>A\<close> the rounded \<^verbatim>\<open>alim * h\<close> and \<open>K\<close> the envelope: it lies between
  \<open>a^2 / b^4\<close> and \<open>b^2 / a^4\<close> times \<open>K / (A r)\<close>.
\<close>

lemma cfac_bounds:
  assumes A: "0 < A" and r: "0 < r" and K: "0 \<le> K"
    and dl: "(1 - eps64) ^ 4 * r\<^sup>2 \<le> d" and du: "d \<le> (1 + eps64) ^ 4 * r\<^sup>2"
  shows "0 < fl (A * fl (sqrt d))"
    and "(1 - eps64) ^ 2 * K / ((1 + eps64) ^ 4 * (A * r)) \<le> fl (fl (1 / fl (A * fl (sqrt d))) * K)"
    and "fl (fl (1 / fl (A * fl (sqrt d))) * K) \<le> (1 + eps64) ^ 2 * K / ((1 - eps64) ^ 4 * (A * r))"
proof -
  define a where "a = 1 - eps64"
  define b where "b = 1 + eps64"
  have a: "0 < a" and b: "0 < b" using eps64_bounds by (simp_all add: a_def b_def)
  note sd = sqrt_d_bounds [OF less_imp_le [OF r] dl du, folded a_def b_def]
  have ar: "0 \<le> a ^ 2 * r" using a r by simp
  define s where "s = fl (sqrt d)"
  have "a * (a ^ 2 * r) \<le> s"
    unfolding s_def a_def using ar sd(1) by (intro fl_ge) (simp_all add: a_def)
  then have sl: "a ^ 3 * r \<le> s" by (simp add: power3_eq_cube power2_eq_square)
  have sdn: "0 \<le> sqrt d" using ar sd(1) by linarith
  have "s \<le> b * (b ^ 2 * r)"
    unfolding s_def b_def using sdn sd(2) by (intro fl_le) (simp_all add: b_def)
  then have su: "s \<le> b ^ 3 * r" by (simp add: power3_eq_cube power2_eq_square)
  have "0 < a ^ 3 * r" using a r by simp
  then have sp: "0 < s" using sl by linarith
  define t where "t = fl (A * s)"
  have "A * (a ^ 3 * r) \<le> A * s" using sl A by simp
  then have l1: "a ^ 3 * (A * r) \<le> A * s" by (simp add: mult_ac)
  have "A * s \<le> A * (b ^ 3 * r)" using su A by simp
  then have u1: "A * s \<le> b ^ 3 * (A * r)" by (simp add: mult_ac)
  have N: "0 < A * r" using A r by simp
  have "a * (a ^ 3 * (A * r)) \<le> t"
    unfolding t_def a_def using l1 a N by (intro fl_ge) (simp_all add: a_def)
  then have tl: "a ^ 4 * (A * r) \<le> t" by (simp add: power4_eq_xxxx power3_eq_cube)
  have "t \<le> b * (b ^ 3 * (A * r))"
    unfolding t_def b_def using u1 A sp by (intro fl_le) (simp_all add: b_def)
  then have tu: "t \<le> b ^ 4 * (A * r)" by (simp add: power4_eq_xxxx power3_eq_cube)
  have aN: "0 < a ^ 4 * (A * r)" using a N by simp
  have bN: "0 < b ^ 4 * (A * r)" using b N by simp
  have tp: "0 < t" using tl aN by linarith
  show "0 < fl (A * fl (sqrt d))" using tp by (simp add: t_def s_def)
  have ql: "1 / (b ^ 4 * (A * r)) \<le> 1 / t"
    using tu tp by (intro divide_left_mono) simp_all
  have qu: "1 / t \<le> 1 / (a ^ 4 * (A * r))"
    using tl aN tp by (intro divide_left_mono) simp_all
  define c0 where "c0 = fl (1 / t)"
  have c0l: "a * (1 / (b ^ 4 * (A * r))) \<le> c0"
    unfolding c0_def a_def using ql bN by (intro fl_ge) (simp_all add: b_def)
  have c0u: "c0 \<le> b * (1 / (a ^ 4 * (A * r)))"
    unfolding c0_def b_def using qu tp by (intro fl_le) (simp_all add: a_def)
  have c0n: "0 \<le> c0" unfolding c0_def using tp by (intro fl_nonneg) simp
  have kl: "a * (1 / (b ^ 4 * (A * r))) * K \<le> c0 * K"
    using c0l K by (intro mult_right_mono)
  have ku: "c0 * K \<le> b * (1 / (a ^ 4 * (A * r))) * K"
    using c0u K by (intro mult_right_mono)
  have kn: "0 \<le> a * (1 / (b ^ 4 * (A * r))) * K" using a bN K by simp
  have "a * (a * (1 / (b ^ 4 * (A * r))) * K) \<le> fl (c0 * K)"
    unfolding a_def using kl kn by (intro fl_ge) (simp_all add: a_def)
  then have "a ^ 2 * K / (b ^ 4 * (A * r)) \<le> fl (c0 * K)"
    by (simp add: power2_eq_square)
  then show "(1 - eps64) ^ 2 * K / ((1 + eps64) ^ 4 * (A * r)) \<le> fl (fl (1 / fl (A * fl (sqrt d))) * K)"
    by (simp only: a_def b_def c0_def t_def s_def)
  have "fl (c0 * K) \<le> b * (b * (1 / (a ^ 4 * (A * r))) * K)"
    unfolding b_def using ku c0n K by (intro fl_le) (simp_all add: b_def)
  then have "fl (c0 * K) \<le> b ^ 2 * K / (a ^ 4 * (A * r))"
    by (simp add: power2_eq_square)
  then show "fl (fl (1 / fl (A * fl (sqrt d))) * K) \<le> (1 + eps64) ^ 2 * K / ((1 - eps64) ^ 4 * (A * r))"
    by (simp only: a_def b_def c0_def t_def s_def)
qed

text \<open>
  For \<open>\<alpha> > 0\<close> and \<open>h > 0\<close> no division by zero occurs, and \<open>local_slopelimiter_b64\<close>
  rescales the gradient by \<open>cfac_b64\<close> exactly when the gradient is not zero and the
  coefficient is below \<open>1\<close>.
\<close>

lemma local_slopelimiter_b64_eq:
  assumes al: "0 < alim" and h: "0 < h"
  shows "local_slopelimiter_b64 g valmax valmin alim h shoot_tol =
           Inr (if 0 < sumsq_b64 g \<and> cfac_b64 g valmax valmin alim h shoot_tol < 1
                then vscale_b64 (cfac_b64 g valmax valmin alim h shoot_tol) g else g)"
proof (cases g)
  case (fields g0 g1 g2)
  define d where "d = fl (fl (fl (0 + fl (g0 * g0)) + fl (g1 * g1)) + fl (g2 * g2))"
  have sd: "sumsq_b64 g = d" by (simp add: fields sumsq_b64_def d_def)
  show ?thesis
  proof (cases "0 < d")
    case False
    then show ?thesis
      unfolding local_slopelimiter_b64_def fields prod.case Let_def d_def [symmetric]
        sd [unfolded fields]
      by simp
  next
    case True
    define t where "t = fl (fl (alim * h) * fl (sqrt d))"
    have "0 < fl (alim * h)" using al h by (intro fl_pos) simp
    moreover have "0 < fl (sqrt d)" using True by (intro fl_pos) simp
    ultimately have "0 < t" unfolding t_def by (intro fl_pos) simp
    then have q: "fdiv 1 t = Inr (1 / t)" by (simp add: fdiv_def)
    show ?thesis
    proof (cases "0 < shoot_tol")
      case tol: True
      show ?thesis
        unfolding local_slopelimiter_b64_def cfac_b64_def envelope_b64_def vscale_b64_def
          fields prod.case Let_def sd [unfolded fields] d_def [symmetric] t_def [symmetric]
          q sum.case if_P [OF True] if_P [OF tol] eqTrueI [OF True]
        by (simp only: if_distrib [of Inr] simp_thms if_True)
    next
      case tol: False
      show ?thesis
        unfolding local_slopelimiter_b64_def cfac_b64_def envelope_b64_def vscale_b64_def
          fields prod.case Let_def sd [unfolded fields] d_def [symmetric] t_def [symmetric]
          q sum.case if_P [OF True] if_not_P [OF tol] eqTrueI [OF True]
        by (simp only: if_distrib [of Inr] simp_thms if_True)
    qed
  qed
qed

lemma cfac_b64_bounds:
  assumes al: "0 < alim" and h: "0 < h" and g: "g \<noteq> (0, 0, 0)"
    and r: "r = sqrt (fst g * fst g + fst (snd g) * fst (snd g) + snd (snd g) * snd (snd g))"
    and K: "K = envelope_b64 valmax valmin shoot_tol"
  shows "0 < r"
    and "(1 - eps64) ^ 2 * K / ((1 + eps64) ^ 4 * (fl (alim * h) * r)) \<le>
           cfac_b64 g valmax valmin alim h shoot_tol"
    and "cfac_b64 g valmax valmin alim h shoot_tol \<le>
           (1 + eps64) ^ 2 * K / ((1 - eps64) ^ 4 * (fl (alim * h) * r))"
proof -
  obtain g0 g1 g2 where f: "g = (g0, g1, g2)" by (cases g)
  define G where "G = g0 * g0 + g1 * g1 + g2 * g2"
  have Gp: "0 < G" unfolding G_def using g f sumsq_pos_iff [of g0 g1 g2] by simp
  have rG: "r = sqrt G" using r by (simp add: f G_def)
  show rp: "0 < r" using Gp by (simp add: rG)
  have r2: "r\<^sup>2 = G" using Gp by (simp add: rG)
  have A: "0 < fl (alim * h)" using al h by (intro fl_pos) simp
  have Kn: "0 \<le> K" by (simp add: K envelope_b64_nonneg)
  have dl: "(1 - eps64) ^ 4 * r\<^sup>2 \<le> sumsq_b64 g"
    unfolding r2 G_def f by (rule sumsq_b64_lower)
  have du: "sumsq_b64 g \<le> (1 + eps64) ^ 4 * r\<^sup>2"
    unfolding r2 G_def f by (rule sumsq_b64_upper)
  note B = cfac_bounds [OF A rp Kn dl du]
  show "(1 - eps64) ^ 2 * K / ((1 + eps64) ^ 4 * (fl (alim * h) * r)) \<le>
           cfac_b64 g valmax valmin alim h shoot_tol"
    using B(2) by (simp only: cfac_b64_def K)
  show "cfac_b64 g valmax valmin alim h shoot_tol \<le>
           (1 + eps64) ^ 2 * K / ((1 - eps64) ^ 4 * (fl (alim * h) * r))"
    using B(3) by (simp only: cfac_b64_def K)
qed

text \<open>The norm of a gradient rescaled by \<open>c\<close> is at most \<open>b c\<close> times the norm before.\<close>

lemma rescaled_norm:
  assumes c: "0 \<le> c"
  shows "sqrt (fl (g0 * c) * fl (g0 * c) + fl (g1 * c) * fl (g1 * c) + fl (g2 * c) * fl (g2 * c))
           \<le> (1 + eps64) * c * sqrt (g0 * g0 + g1 * g1 + g2 * g2)"
proof -
  define b where "b = 1 + eps64"
  have b: "0 < b" using eps64_bounds by (simp add: b_def)
  have sq: "fl (x * c) * fl (x * c) \<le> (b * c)\<^sup>2 * (x * x)" for x
  proof -
    have "\<bar>fl (x * c)\<bar> \<le> b * \<bar>x * c\<bar>" unfolding b_def by (rule fl_abs_le)
    also have "\<dots> = \<bar>b * c * x\<bar>" using b c by (simp add: abs_mult mult_ac)
    finally have "(fl (x * c))\<^sup>2 \<le> (b * c * x)\<^sup>2" by (simp only: abs_le_square_iff)
    then show ?thesis by (simp add: power2_eq_square mult_ac)
  qed
  have "fl (g0 * c) * fl (g0 * c) + fl (g1 * c) * fl (g1 * c) + fl (g2 * c) * fl (g2 * c)
          \<le> (b * c)\<^sup>2 * (g0 * g0) + (b * c)\<^sup>2 * (g1 * g1) + (b * c)\<^sup>2 * (g2 * g2)"
    using sq [of g0] sq [of g1] sq [of g2] by linarith
  also have "\<dots> = (b * c * sqrt (g0 * g0 + g1 * g1 + g2 * g2))\<^sup>2"
    by (simp add: power_mult_distrib algebra_simps)
  finally have "fl (g0 * c) * fl (g0 * c) + fl (g1 * c) * fl (g1 * c) + fl (g2 * c) * fl (g2 * c)
          \<le> (b * c * sqrt (g0 * g0 + g1 * g1 + g2 * g2))\<^sup>2" .
  moreover have "0 \<le> b * c * sqrt (g0 * g0 + g1 * g1 + g2 * g2)" using b c by simp
  ultimately show ?thesis unfolding b_def [symmetric] by (intro real_le_lsqrt) simp_all
qed

text \<open>
  The arithmetic of the bound: \<open>N\<close> and \<open>N'\<close> are \<open>A\<close> times the norm before and after the
  rescaling by \<open>c\<close>, and \<open>c'\<close> is the coefficient of the rescaled gradient.
\<close>

lemma second_coefficient_bound:
  fixes a b c c' K N N' :: real
  assumes a: "0 < a" and b: "0 < b" and N': "0 < N'" and N: "0 < N"
    and le: "N' \<le> b * c * N"
    and cu: "c \<le> b\<^sup>2 * K / (a ^ 4 * N)"
    and cl: "a\<^sup>2 * K / (b ^ 4 * N') \<le> c'"
  shows "a ^ 6 / b ^ 7 \<le> c'"
proof -
  have aN: "0 < a ^ 4 * N" using a N by simp
  have "c * (a ^ 4 * N) \<le> b\<^sup>2 * K" using cu aN by (simp add: pos_le_divide_eq)
  then have "b * (c * (a ^ 4 * N)) \<le> b * (b\<^sup>2 * K)" using b by simp
  moreover have "a ^ 4 * N' \<le> a ^ 4 * (b * c * N)" using le a by simp
  ultimately have k: "a ^ 4 * N' \<le> b ^ 3 * K" by (simp add: power3_eq_cube power2_eq_square mult_ac)
  have "a ^ 6 / b ^ 7 = a\<^sup>2 * (a ^ 4 * N') / (b ^ 4 * N' * b ^ 3)"
    using N' b by (simp add: field_simps power_add [symmetric])
  also have "\<dots> \<le> a\<^sup>2 * (b ^ 3 * K) / (b ^ 4 * N' * b ^ 3)"
    using k a b N' by (intro divide_right_mono mult_left_mono) simp_all
  also have "\<dots> = a\<^sup>2 * K / (b ^ 4 * N')" using b N' by (simp add: field_simps)
  finally show ?thesis using cl by simp
qed

lemma roundoff_margin: "1 - 1 / 2 ^ 49 \<le> (1 - eps64) ^ 6 / (1 + eps64) ^ 7"
  by (simp add: eps64_def power_divide)

lemma vscale_b64_zero: "vscale_b64 0 g = (0, 0, 0)"
  by (cases g) (simp add: vscale_b64_def fl_0)

lemma vscale_b64_nonzero:
  assumes "g \<noteq> (0, 0, 0)" and "c \<noteq> 0"
  shows "vscale_b64 c g \<noteq> (0, 0, 0)"
  using assms by (cases g) (auto simp add: vscale_b64_def fl_eq_0_iff)

lemma second_application_coefficient:
  assumes al: "0 < alim" and h: "0 < h" and g: "g \<noteq> (0, 0, 0)"
    and c: "c = cfac_b64 g valmax valmin alim h shoot_tol" and cp: "0 < c"
  shows "1 - 1 / 2 ^ 49 \<le> cfac_b64 (vscale_b64 c g) valmax valmin alim h shoot_tol"
proof -
  obtain g0 g1 g2 where f: "g = (g0, g1, g2)" by (cases g)
  define g' where "g' = vscale_b64 c g"
  have f': "g' = (fl (g0 * c), fl (g1 * c), fl (g2 * c))" by (simp add: g'_def f vscale_b64_def)
  have g': "g' \<noteq> (0, 0, 0)" unfolding g'_def using g cp by (intro vscale_b64_nonzero) simp_all
  define K where "K = envelope_b64 valmax valmin shoot_tol"
  define A where "A = fl (alim * h)"
  define r where "r = sqrt (g0 * g0 + g1 * g1 + g2 * g2)"
  define r' where
    "r' = sqrt (fl (g0 * c) * fl (g0 * c) + fl (g1 * c) * fl (g1 * c) + fl (g2 * c) * fl (g2 * c))"
  have re: "r = sqrt (fst g * fst g + fst (snd g) * fst (snd g) + snd (snd g) * snd (snd g))"
    by (simp add: r_def f)
  have re': "r' = sqrt (fst g' * fst g' + fst (snd g') * fst (snd g') + snd (snd g') * snd (snd g'))"
    by (simp add: r'_def f')
  note B = cfac_b64_bounds [OF al h g re K_def, folded A_def c]
  note B' = cfac_b64_bounds [OF al h g' re' K_def, folded A_def]
  have A: "0 < A" unfolding A_def using al h by (intro fl_pos) simp
  have N: "0 < A * r" using A B(1) by simp
  have N': "0 < A * r'" using A B'(1) by simp
  have "r' \<le> (1 + eps64) * c * r"
    unfolding r_def r'_def using cp by (intro rescaled_norm) simp
  then have "A * r' \<le> A * ((1 + eps64) * c * r)" using A by simp
  then have le: "A * r' \<le> (1 + eps64) * c * (A * r)" by (simp add: mult_ac)
  have "(1 - eps64) ^ 6 / (1 + eps64) ^ 7 \<le> cfac_b64 g' valmax valmin alim h shoot_tol"
    using eps64_bounds(1) eps64_bounds(4) N' N le B(3) B'(2) by (rule second_coefficient_bound)
  then show ?thesis using roundoff_margin unfolding g'_def by linarith
qed

text \<open>
  Claim C7, amended: in binary64 arithmetic (round to nearest, ties to even, no overflow
  or underflow) and for \<open>\<alpha> > 0\<close> and \<open>h > 0\<close>, \<open>local_slopelimiter\<close> returns a gradient
  \<open>g'\<close>, and a second application with the same envelopes, aggressiveness, characteristic
  length and tolerance either returns \<open>g'\<close> unchanged or multiplies each of its components
  by the recomputed coefficient \<open>c'\<close>, where \<open>1 - 2^(-49) \<le> c' < 1\<close>, and rounds each
  product. The limiter is idempotent up to rounding, and not exactly: the first result
  need not have \<open>c \<ge> 1\<close>.
\<close>

theorem slopelimiter_twice_b64:
  assumes al: "0 < alim" and h: "0 < h"
  shows "\<exists>g'. local_slopelimiter_b64 g valmax valmin alim h shoot_tol = Inr g' \<and>
           (local_slopelimiter_b64 g' valmax valmin alim h shoot_tol = Inr g' \<or>
            (\<exists>c'. 1 - 1 / 2 ^ 49 \<le> c' \<and> c' < 1 \<and>
               c' = cfac_b64 g' valmax valmin alim h shoot_tol \<and>
               local_slopelimiter_b64 g' valmax valmin alim h shoot_tol = Inr (vscale_b64 c' g')))"
proof -
  note E = local_slopelimiter_b64_eq [OF al h]
  define c where "c = cfac_b64 g valmax valmin alim h shoot_tol"
  show ?thesis
  proof (cases "0 < sumsq_b64 g \<and> c < 1")
    case False
    then have "local_slopelimiter_b64 g valmax valmin alim h shoot_tol = Inr g"
      by (auto simp add: E c_def)
    then show ?thesis by blast
  next
    case True
    then have g: "g \<noteq> (0, 0, 0)" and c1: "c < 1" by (simp_all add: sumsq_b64_pos_iff)
    define g' where "g' = vscale_b64 c g"
    have first: "local_slopelimiter_b64 g valmax valmin alim h shoot_tol = Inr g'"
      using True by (simp add: E c_def g'_def)
    define K where "K = envelope_b64 valmax valmin shoot_tol"
    note B = cfac_b64_bounds [OF al h g refl K_def, folded c_def]
    have A: "0 < fl (alim * h)" using al h by (intro fl_pos) simp
    have "0 \<le> K" by (simp add: K_def envelope_b64_nonneg)
    then have "0 \<le> (1 - eps64) ^ 2 * K /
        ((1 + eps64) ^ 4 * (fl (alim * h) *
           sqrt (fst g * fst g + fst (snd g) * fst (snd g) + snd (snd g) * snd (snd g))))"
      using A B(1) eps64_bounds by (intro divide_nonneg_nonneg mult_nonneg_nonneg) simp_all
    then have c0: "0 \<le> c" using B(2) by linarith
    define c' where "c' = cfac_b64 g' valmax valmin alim h shoot_tol"
    have second: "local_slopelimiter_b64 g' valmax valmin alim h shoot_tol = Inr g' \<or>
        (1 - 1 / 2 ^ 49 \<le> c' \<and> c' < 1 \<and>
         local_slopelimiter_b64 g' valmax valmin alim h shoot_tol = Inr (vscale_b64 c' g'))"
    proof (cases "c = 0")
      case True
      then have "g' = (0, 0, 0)" by (simp add: g'_def vscale_b64_zero)
      then have "\<not> 0 < sumsq_b64 g'" by (simp add: sumsq_b64_pos_iff)
      then show ?thesis by (simp add: E)
    next
      case False
      with c0 have cp: "0 < c" by simp
      have m: "1 - 1 / 2 ^ 49 \<le> c'"
        unfolding c'_def g'_def by (rule second_application_coefficient [OF al h g c_def cp])
      show ?thesis
      proof (cases "c' < 1")
        case True
        have "g' \<noteq> (0, 0, 0)" unfolding g'_def using g cp by (intro vscale_b64_nonzero) simp_all
        then have "0 < sumsq_b64 g'" by (simp add: sumsq_b64_pos_iff)
        then have "local_slopelimiter_b64 g' valmax valmin alim h shoot_tol = Inr (vscale_b64 c' g')"
          using True by (simp add: E c'_def)
        then show ?thesis using m True by simp
      next
        case False
        then show ?thesis by (simp add: E c'_def)
      qed
    qed
    from first second show ?thesis unfolding c'_def by blast
  qed
qed

theorem slopelimiter_twice_b64_witness:
  "(0::real) < 1 / 2 \<and> (0::real) < 2 \<and>
   local_slopelimiter_b64 (5, 0, 0) 3 (- 3) (1 / 2) 2 0 = Inr (3 + 1 / 2 ^ 51, 0, 0) \<and>
   (\<exists>c'. 1 - 1 / 2 ^ 49 \<le> c' \<and> c' < 1 \<and>
      c' = cfac_b64 (3 + 1 / 2 ^ 51, 0, 0) 3 (- 3) (1 / 2) 2 0 \<and>
      local_slopelimiter_b64 (3 + 1 / 2 ^ 51, 0, 0) 3 (- 3) (1 / 2) 2 0 =
        Inr (vscale_b64 c' (3 + 1 / 2 ^ 51, 0, 0)))"
proof -
  have a: "(0::real) < 1 / 2" and h: "(0::real) < 2" by simp_all
  from slopelimiter_twice_b64 [OF a h, of "(5, 0, 0)" 3 "- 3" 0]
  obtain g' where first: "local_slopelimiter_b64 (5, 0, 0) 3 (- 3) (1 / 2) 2 0 = Inr g'"
    and second: "local_slopelimiter_b64 g' 3 (- 3) (1 / 2) 2 0 = Inr g' \<or>
      (\<exists>c'. 1 - 1 / 2 ^ 49 \<le> c' \<and> c' < 1 \<and>
         c' = cfac_b64 g' 3 (- 3) (1 / 2) 2 0 \<and>
         local_slopelimiter_b64 g' 3 (- 3) (1 / 2) 2 0 = Inr (vscale_b64 c' g'))"
    by blast
  from first have g': "g' = (3 + 1 / 2 ^ 51, 0, 0)" by (simp add: limiter_b64_first)
  have "local_slopelimiter_b64 (3 + 1 / 2 ^ 51, 0, 0) 3 (- 3) (1 / 2) 2 0 \<noteq>
      Inr (3 + 1 / 2 ^ 51, 0, 0)"
    unfolding limiter_b64_second by simp
  with second show ?thesis using a h limiter_b64_first unfolding g' by blast
qed

subsection \<open>construct\_gradient\<close>

text \<open>
  Claim C5: when the condition number of the cell is at or below the danger threshold,
  \<open>construct_gradient\<close> returns the product of the matrix \<^verbatim>\<open>NV_T\<close> with the accumulated
  vector; when it exceeds the threshold, each component of the accumulated vector is
  multiplied by \<^verbatim>\<open>DhsmlNgbFactor / Density\<close> (for a density that is not zero).
\<close>

theorem construct_gradient_cases:
  "(ConditionNumber c \<le> danger \<longrightarrow>
      construct_gradient danger c g = Inr (mat_vec (NV_T c) g)) \<and>
   (ConditionNumber c > danger \<longrightarrow> SphP_Density c \<noteq> 0 \<longrightarrow>
      construct_gradient danger c g = Inr (vscale (DhsmlNgbFactor c / SphP_Density c) g))"
proof (cases g)
  case (fields g0 g1 g2)
  obtain n00 n01 n02 n10 n11 n12 n20 n21 n22 where
    n: "NV_T c = ((n00, n01, n02), (n10, n11, n12), (n20, n21, n22))"
    by (metis prod_cases3)
  show ?thesis
    by (simp add: fields n construct_gradient_def SHOULD_I_USE_SPH_GRADIENTS_def fdiv_def
        mat_vec_def row_dot_def vscale_def)
qed

theorem construct_gradient_cases_witness:
  "ConditionNumber cell_example \<le> 1000 \<and>
   construct_gradient 1000 cell_example (1, 1, 1) = Inr (1, 2, 3) \<and>
   ConditionNumber cell_degenerate > 1000 \<and> SphP_Density cell_degenerate \<noteq> 0 \<and>
   construct_gradient 1000 cell_degenerate (1, 1, 1) = Inr (1 / 2, 1 / 2, 1 / 2)"
proof -
  have w: "ConditionNumber cell_example \<le> 1000" by (simp add: cell_example_def)
  have d: "ConditionNumber cell_degenerate > 1000" "SphP_Density cell_degenerate \<noteq> 0"
    by (simp_all add: cell_degenerate_def cell_example_def)
  have "construct_gradient 1000 cell_example (1, 1, 1) = Inr (1, 2, 3)"
    using construct_gradient_cases [of cell_example 1000 "(1, 1, 1)"] w
    by (simp add: cell_example_def mat_vec_def row_dot_def)
  moreover have "construct_gradient 1000 cell_degenerate (1, 1, 1) = Inr (1 / 2, 1 / 2, 1 / 2)"
    using construct_gradient_cases [of cell_degenerate 1000 "(1, 1, 1)"] d
    by (simp add: cell_degenerate_def cell_example_def vscale_def)
  ultimately show ?thesis using w d by blast
qed

section \<open>Properties of density.c: one particle\<close>

subsection \<open>density\_post\_process\<close>

lemma sph_normalise_result:
  assumes "0 < NUMDIMS cfg" "0 < Density p"
  shows "\<exists>p'. sph_normalise cfg p = Inr p' \<and>
     DhsmlDensityFactor p' =
       (let t = DhsmlDensityFactor p * (Hsml p / (real (NUMDIMS cfg) * Density p))
        in if t > - 0.9 then 1 / (1 + t) else 1) \<and>
     p' = p\<lparr>DhsmlDensityFactor := DhsmlDensityFactor p', CurlVel := CurlVel p',
            DivVel := DivVel p'\<rparr>"
proof -
  define t where "t = DhsmlDensityFactor p * (Hsml p / (real (NUMDIMS cfg) * Density p))"
  have d: "real (NUMDIMS cfg) * Density p \<noteq> 0" using assms by simp
  have q: "fdiv (Hsml p) (real (NUMDIMS cfg) * Density p) =
      Inr (Hsml p / (real (NUMDIMS cfg) * Density p))"
    using d by (simp add: fdiv_def)
  have rho: "Density p \<noteq> 0" using assms(2) by simp
  obtain r0 r1 r2 where rot: "Rot p = (r0, r1, r2)" by (metis prod_cases3)
  show ?thesis
  proof (cases "t > - 0.9")
    case True
    then have "1 + t \<noteq> 0" by linarith
    then have f: "fdiv 1 (1 + t) = Inr (1 / (1 + t))" by (simp add: fdiv_def)
    show ?thesis
      unfolding sph_normalise_def q sum.case Let_def
      using True f rho rot unfolding t_def
      by (simp add: fdiv_def)
  next
    case False
    show ?thesis
      unfolding sph_normalise_def q sum.case Let_def
      using False rho rot unfolding t_def
      by (simp add: fdiv_def)
  qed
qed

lemma post_process_gas:
  assumes "Type p = 0"
  shows "density_post_process cfg p =
     (case (if Density p > 0 then sph_normalise cfg p else Inr p) of
        Inl e \<Rightarrow> Inl e
      | Inr p' \<Rightarrow>
          if BLACK_HOLES cfg \<and> Type p' = 5
          then (if BH_Density (sph_pressure cfg p') > 0 then bh_normalise (sph_pressure cfg p')
                else Inr (sph_pressure cfg p'))
          else Inr (sph_pressure cfg p'))"
  using assms
  by (simp add: density_post_process_def sph_pressure_def Let_def split: sum.splits)

text \<open>
  Claim C6: for a gas particle with positive accumulated density (and a dimension count
  that is not zero), \<open>density_post_process\<close> first multiplies the raw accumulator by
  \<open>h / (D \<rho>)\<close>; when this term is greater than \<open>-0.9\<close> the stored factor is
  \<open>1 / (1 + term)\<close>, otherwise it is exactly \<open>1\<close>.
\<close>

theorem post_process_dhsml_factor:
  assumes gas: "Type p = 0" and rho: "0 < Density p" and dims: "0 < NUMDIMS cfg"
  shows "\<exists>p'. density_post_process cfg p = Inr p' \<and>
           DhsmlDensityFactor p' =
             (let t = DhsmlDensityFactor p * (Hsml p / (real (NUMDIMS cfg) * Density p))
              in if t > - 0.9 then 1 / (1 + t) else 1)"
proof -
  from sph_normalise_result [OF dims rho] obtain p1 where
    n: "sph_normalise cfg p = Inr p1"
    and f: "DhsmlDensityFactor p1 =
       (let t = DhsmlDensityFactor p * (Hsml p / (real (NUMDIMS cfg) * Density p))
        in if t > - 0.9 then 1 / (1 + t) else 1)"
    and p1: "p1 = p\<lparr>DhsmlDensityFactor := DhsmlDensityFactor p1, CurlVel := CurlVel p1,
            DivVel := DivVel p1\<rparr>"
    by blast
  have "Type p1 = 0" by (subst p1) (simp add: gas)
  then have "density_post_process cfg p = Inr (sph_pressure cfg p1)"
    by (simp add: post_process_gas [OF gas] rho n)
  moreover have "DhsmlDensityFactor (sph_pressure cfg p1) = DhsmlDensityFactor p1"
    by (simp add: sph_pressure_def Let_def)
  ultimately show ?thesis using f by simp
qed

theorem post_process_dhsml_factor_witness:
  "Type gas_example = 0 \<and> 0 < Density gas_example \<and> 0 < NUMDIMS cfg_example \<and>
   (\<exists>p'. density_post_process cfg_example gas_example = Inr p' \<and>
         DhsmlDensityFactor p' = 3 / 4)"
proof -
  have h: "Type gas_example = 0" "0 < Density gas_example" "0 < NUMDIMS cfg_example"
    by (simp_all add: gas_example_def cfg_example_def)
  from post_process_dhsml_factor [OF h]
  have "\<exists>p'. density_post_process cfg_example gas_example = Inr p' \<and>
         DhsmlDensityFactor p' = 3 / 4"
    by (simp add: gas_example_def cfg_example_def Let_def)
  with h show ?thesis by blast
qed

text \<open>
  Claim C9: for a gas particle whose accumulated density is not positive,
  \<open>density_post_process\<close> returns normally (it meets no division by zero) with
  \<^verbatim>\<open>DivVel\<close>, \<^verbatim>\<open>CurlVel\<close> and \<^verbatim>\<open>DhsmlDensityFactor\<close> as they were: the pressure is the
  only field it writes.
\<close>

theorem post_process_nonpositive_density:
  assumes gas: "Type p = 0" and rho: "\<not> 0 < Density p"
  shows "\<exists>p'. density_post_process cfg p = Inr p' \<and>
           DivVel p' = DivVel p \<and> CurlVel p' = CurlVel p \<and>
           DhsmlDensityFactor p' = DhsmlDensityFactor p \<and>
           p' = p\<lparr>Pressure := Pressure p'\<rparr>"
proof -
  have "density_post_process cfg p = Inr (sph_pressure cfg p)"
    by (simp add: post_process_gas [OF gas] rho gas)
  then show ?thesis by (simp add: sph_pressure_def Let_def)
qed

theorem post_process_nonpositive_density_witness:
  "Type (gas_example\<lparr>Density := 0, DivVel := 5\<rparr>) = 0 \<and>
   \<not> 0 < Density (gas_example\<lparr>Density := 0, DivVel := 5\<rparr>) \<and>
   (\<exists>p'. density_post_process cfg_example (gas_example\<lparr>Density := 0, DivVel := 5\<rparr>) = Inr p' \<and>
         DivVel p' = 5 \<and> CurlVel p' = 0 \<and> DhsmlDensityFactor p' = 1)"
proof -
  have h: "Type (gas_example\<lparr>Density := 0, DivVel := 5\<rparr>) = 0"
    "\<not> 0 < Density (gas_example\<lparr>Density := 0, DivVel := 5\<rparr>)"
    by (simp_all add: gas_example_def)
  from post_process_nonpositive_density [OF h, of cfg_example]
  obtain p' where
    "density_post_process cfg_example (gas_example\<lparr>Density := 0, DivVel := 5\<rparr>) = Inr p'"
    "DivVel p' = DivVel (gas_example\<lparr>Density := 0, DivVel := 5\<rparr>)"
    "CurlVel p' = CurlVel (gas_example\<lparr>Density := 0, DivVel := 5\<rparr>)"
    "DhsmlDensityFactor p' = DhsmlDensityFactor (gas_example\<lparr>Density := 0, DivVel := 5\<rparr>)"
    by blast
  then have "\<exists>p'. density_post_process cfg_example (gas_example\<lparr>Density := 0, DivVel := 5\<rparr>) = Inr p' \<and>
         DivVel p' = 5 \<and> CurlVel p' = 0 \<and> DhsmlDensityFactor p' = 1"
    by (simp add: gas_example_def)
  with h show ?thesis by blast
qed

text \<open>
  The guards of \<open>density_post_process\<close> cover all its divisions: with a dimension count
  that is not zero it returns normally for every particle.
\<close>

lemma bh_normalise_returns:
  assumes "BH_Density p \<noteq> 0"
  shows "\<exists>p'. bh_normalise p = Inr p'"
proof -
  obtain v0 v1 v2 where v: "BH_SurroundingGasVel p = (v0, v1, v2)" by (metis prod_cases3)
  show ?thesis using assms by (simp add: bh_normalise_def fdiv_def v Let_def)
qed

lemma density_post_process_returns:
  assumes dims: "0 < NUMDIMS cfg"
  shows "\<exists>p'. density_post_process cfg p = Inr p'"
proof (cases "Type p = 0")
  case True
  show ?thesis
  proof (cases "0 < Density p")
    case rho: True
    from sph_normalise_result [OF dims rho] obtain p1 where
      n: "sph_normalise cfg p = Inr p1"
      and p1: "p1 = p\<lparr>DhsmlDensityFactor := DhsmlDensityFactor p1, CurlVel := CurlVel p1,
              DivVel := DivVel p1\<rparr>"
      by blast
    have "Type p1 = 0" by (subst p1) (simp add: True)
    with n show ?thesis by (simp add: post_process_gas [OF True] rho)
  next
    case False
    then show ?thesis by (simp add: post_process_gas [OF True] True)
  qed
next
  case False
  show ?thesis
  proof (cases "BLACK_HOLES cfg \<and> Type p = 5 \<and> 0 < BH_Density p")
    case True
    then have "BH_Density p \<noteq> 0" by simp
    from bh_normalise_returns [OF this] True False show ?thesis
      by (simp add: density_post_process_def)
  next
    case no: False
    with False show ?thesis by (auto simp add: density_post_process_def)
  qed
qed

subsection \<open>density\_check\_neighbours: the decision\<close>

lemma redo_iff:
  assumes "0 \<le> MaxNumNgbDeviation cfg"
  shows "(NumNgb p < DesNumNgb cfg - MaxNumNgbDeviation cfg \<or>
          (NumNgb p > DesNumNgb cfg + MaxNumNgbDeviation cfg \<and> Hsml p > 1.01 * MinGasHsml cfg))
         = (\<not> (within_tolerance cfg p \<or> too_many_at_floor cfg p))"
  using assms by (auto simp add: within_tolerance_def too_many_at_floor_def abs_le_iff)

lemma redo_of_not_done:
  assumes "0 \<le> MaxNumNgbDeviation cfg" "\<not> done_predicate cfg p l r"
  shows "NumNgb p < DesNumNgb cfg - MaxNumNgbDeviation cfg \<or>
          (NumNgb p > DesNumNgb cfg + MaxNumNgbDeviation cfg \<and> Hsml p > 1.01 * MinGasHsml cfg)"
  using redo_iff [OF assms(1), of p] assms(2) by (simp only: done_predicate_def) blast

lemma desnumngb_gas: "\<not> is_sink cfg p \<Longrightarrow>
   (if BLACK_HOLES cfg \<and> Type p = 5 then DesNumNgb cfg * BlackHoleNgbFactor cfg else DesNumNgb cfg)
     = DesNumNgb cfg"
  by (auto simp add: is_sink_def)



lemma bracket_left_code:
  "(if NumNgb p < DesNumNgb cfg - MaxNumNgbDeviation cfg then DMAX (Hsml p) l else l)
     = bracket_left cfg p l"
  by (simp add: bracket_left_def DMAX_max max.commute)

lemma bracket_right_code:
  "(if NumNgb p < DesNumNgb cfg - MaxNumNgbDeviation cfg then r
    else if r \<noteq> 0 then (if Hsml p < r then Hsml p else r) else Hsml p)
     = bracket_right cfg p r"
  by (simp add: bracket_right_def min_def)

lemma check_redo:
  assumes "\<not> is_sink cfg p" "0 \<le> MaxNumNgbDeviation cfg" "\<not> DensityIterationDone p"
    "\<not> done_predicate cfg p l r"
    and h: "hsml_update cfg p (DesNumNgb cfg) (bracket_left cfg p l) (bracket_right cfg p r) = Inr h"
  shows "density_check_neighbours cfg p l r =
           Inr (p\<lparr>Hsml := max (MinGasHsml cfg) h\<rparr>, bracket_left cfg p l, bracket_right cfg p r)"
proof -
  note redo = redo_of_not_done [OF assms(2,4)]
  have c: "\<not> (l > 0 \<and> r > 0 \<and> r - l < 0.001 * l)"
    using assms(4) by (simp only: done_predicate_def bracket_collapsed_def) blast
  have s: "\<not> (BLACK_HOLES cfg \<and> Type p = 5 \<and> X)" for X
    using assms(1) by (auto simp add: is_sink_def)
  have m: "(if h < MinGasHsml cfg then MinGasHsml cfg else h) = max (MinGasHsml cfg) h"
    by (simp add: max_def)
  show ?thesis
    unfolding density_check_neighbours_def desnumngb_gas [OF assms(1)] Let_def
      bracket_left_code bracket_right_code
    by (simp only: if_P [OF redo] if_not_P [OF assms(3)] if_not_P [OF c] h sum.case
          if_not_P [OF s] m)
qed

lemma bracket_bounds:
  assumes "0 < Hsml p" "0 \<le> l" "0 \<le> r"
    and redo: "NumNgb p < DesNumNgb cfg - MaxNumNgbDeviation cfg \<or>
          (NumNgb p > DesNumNgb cfg + MaxNumNgbDeviation cfg \<and> Hsml p > 1.01 * MinGasHsml cfg)"
  shows "0 \<le> bracket_left cfg p l" "0 \<le> bracket_right cfg p r"
    "0 < bracket_left cfg p l \<or> 0 < bracket_right cfg p r"
  using assms by (auto simp add: bracket_left_def bracket_right_def max_def min_def)

subsection \<open>density\_check\_neighbours: the new smoothing length\<close>

lemma newton_fac_ok:
  assumes "0 < NUMDIMS cfg" "\<bar>NumNgb p - d\<bar> < 0.5 * d"
  shows "newton_fac cfg p d =
    Inr (1 - (NumNgb p - d) / (real (NUMDIMS cfg) * NumNgb p) * DhsmlDensityFactor p)"
proof -
  have "0 < NumNgb p" using assms(2) by linarith
  with assms(1) have "real (NUMDIMS cfg) * NumNgb p \<noteq> 0" by simp
  then show ?thesis by (simp add: newton_fac_def fdiv_def)
qed

lemma hsml_update_both:
  assumes "0 < l'" "0 < r'"
  shows "hsml_update cfg p d l' r' = Inr ((0.5 * (l' ^ 3 + r' ^ 3)) powr (1 / 3))"
  using assms by (simp add: hsml_update_def)

lemma hsml_update_grow_newton:
  assumes "0 < l'" "r' = 0" "Type p = 0" "\<bar>NumNgb p - d\<bar> < 0.5 * d"
    and nf: "newton_fac cfg p d = Inr fac"
  shows "hsml_update cfg p d l' r' = Inr (Hsml p * min fac 1.26)"
proof -
  have "hsml_update cfg p d l' r' =
      (if fac < 1.26 then Inr (Hsml p * fac) else Inr (Hsml p * 1.26))"
    using assms(1-4) by (simp add: hsml_update_def nf)
  then show ?thesis by (simp add: min_def)
qed

lemma hsml_update_grow_plain:
  assumes "0 < l'" "r' = 0" "\<not> (Type p = 0 \<and> \<bar>NumNgb p - d\<bar> < 0.5 * d)"
  shows "hsml_update cfg p d l' r' = Inr (Hsml p * 1.26)"
  using assms by (auto simp add: hsml_update_def)

lemma hsml_update_shrink_newton:
  assumes "l' = 0" "0 < r'" "Type p = 0" "\<bar>NumNgb p - d\<bar> < 0.5 * d"
    and nf: "newton_fac cfg p d = Inr fac"
  shows "hsml_update cfg p d l' r' = Inr (Hsml p * max fac (1 / 1.26))"
proof -
  have "hsml_update cfg p d l' r' =
      (if fac > 1 / 1.26 then Inr (Hsml p * fac) else Inr (Hsml p / 1.26))"
    using assms(1-4) by (simp add: hsml_update_def nf)
  then show ?thesis by (simp add: max_def)
qed

lemma hsml_update_shrink_plain:
  assumes "l' = 0" "0 < r'" "\<not> (Type p = 0 \<and> \<bar>NumNgb p - d\<bar> < 0.5 * d)"
  shows "hsml_update cfg p d l' r' = Inr (Hsml p / 1.26)"
  using assms by (auto simp add: hsml_update_def)

lemma hsml_update_total:
  assumes n: "0 < NUMDIMS cfg" and "0 \<le> l'" "0 \<le> r'" "0 < l' \<or> 0 < r'"
  shows "\<exists>h. hsml_update cfg p d l' r' = Inr h"
proof -
  consider (both) "0 < l'" "0 < r'" | (grow) "0 < l'" "r' = 0" | (shrink) "l' = 0" "0 < r'"
    using assms(2-4) by fastforce
  then show ?thesis
  proof cases
    case both
    then show ?thesis by (simp add: hsml_update_both)
  next
    case grow
    show ?thesis
    proof (cases "Type p = 0 \<and> \<bar>NumNgb p - d\<bar> < 0.5 * d")
      case True
      with hsml_update_grow_newton [OF grow _ _ newton_fac_ok [OF n]] show ?thesis by blast
    next
      case False
      with hsml_update_grow_plain [OF grow] show ?thesis by blast
    qed
  next
    case shrink
    show ?thesis
    proof (cases "Type p = 0 \<and> \<bar>NumNgb p - d\<bar> < 0.5 * d")
      case True
      with hsml_update_shrink_newton [OF shrink _ _ newton_fac_ok [OF n]] show ?thesis by blast
    next
      case False
      with hsml_update_shrink_plain [OF shrink] show ?thesis by blast
    qed
  qed
qed


lemma example_hypotheses:
  "\<not> is_sink cfg_example gas_example" "\<not> DensityIterationDone gas_example"
  "0 \<le> MaxNumNgbDeviation cfg_example" "0 < NUMDIMS cfg_example" "0 < Hsml gas_example"
  "\<not> done_predicate cfg_example gas_example 0 r"
  by (simp_all add: is_sink_def done_predicate_def within_tolerance_def too_many_at_floor_def
      bracket_collapsed_def cfg_example_def gas_example_def)



text \<open>
  Claim C2: when such a particle must be redone, the bracket is updated as stated
  (\<open>Left \<leftarrow> max(Left, h)\<close> for \<open>N_ngb < N* - \<Delta>\<close>; otherwise \<open>N_ngb > N* + \<Delta>\<close> holds and
  \<open>Right \<leftarrow> h\<close> for \<open>Right = 0\<close>, \<open>Right \<leftarrow> min(Right, h)\<close> else); with both sides positive
  the proposed smoothing length is \<open>((Left\<^sup>3 + Right\<^sup>3) / 2)\<^sup>1\<^sup>/\<^sup>3\<close>; and the stored one is the
  proposal, or \<open>H_min\<close> when the proposal is smaller, hence never below \<open>H_min\<close>.
\<close>

theorem check_neighbours_redo_bracket:
  assumes gas: "\<not> is_sink cfg p" and fresh: "\<not> DensityIterationDone p"
    and tol: "0 \<le> MaxNumNgbDeviation cfg" and dims: "0 < NUMDIMS cfg"
    and h: "0 < Hsml p" and l: "0 \<le> l" and r: "0 \<le> r"
    and redo: "\<not> done_predicate cfg p l r"
  shows "\<exists>p' h'. density_check_neighbours cfg p l r =
                    Inr (p', bracket_left cfg p l, bracket_right cfg p r) \<and>
           (\<not> NumNgb p < DesNumNgb cfg - MaxNumNgbDeviation cfg \<longrightarrow>
              NumNgb p > DesNumNgb cfg + MaxNumNgbDeviation cfg) \<and>
           hsml_update cfg p (DesNumNgb cfg) (bracket_left cfg p l) (bracket_right cfg p r)
             = Inr h' \<and>
           (0 < bracket_left cfg p l \<and> 0 < bracket_right cfg p r \<longrightarrow>
              h' = (((bracket_left cfg p l) ^ 3 + (bracket_right cfg p r) ^ 3) / 2) powr (1 / 3)) \<and>
           Hsml p' = (if h' < MinGasHsml cfg then MinGasHsml cfg else h') \<and>
           MinGasHsml cfg \<le> Hsml p'"
proof -
  note rd = redo_of_not_done [OF tol redo]
  note b = bracket_bounds [OF h l r rd]
  from hsml_update_total [OF dims b] obtain h' where
    h': "hsml_update cfg p (DesNumNgb cfg) (bracket_left cfg p l) (bracket_right cfg p r) = Inr h'"
    by blast
  have both: "h' = (((bracket_left cfg p l) ^ 3 + (bracket_right cfg p r) ^ 3) / 2) powr (1 / 3)"
    if "0 < bracket_left cfg p l \<and> 0 < bracket_right cfg p r"
    using hsml_update_both [of "bracket_left cfg p l" "bracket_right cfg p r" cfg p "DesNumNgb cfg"]
      that h' by simp
  have "density_check_neighbours cfg p l r =
           Inr (p\<lparr>Hsml := max (MinGasHsml cfg) h'\<rparr>, bracket_left cfg p l, bracket_right cfg p r)"
    by (rule check_redo [OF gas tol fresh redo h'])
  moreover have "Hsml (p\<lparr>Hsml := max (MinGasHsml cfg) h'\<rparr>) =
      (if h' < MinGasHsml cfg then MinGasHsml cfg else h')"
    by (simp add: max_def)
  moreover have "MinGasHsml cfg \<le> Hsml (p\<lparr>Hsml := max (MinGasHsml cfg) h'\<rparr>)" by simp
  moreover have "\<not> NumNgb p < DesNumNgb cfg - MaxNumNgbDeviation cfg \<longrightarrow>
              NumNgb p > DesNumNgb cfg + MaxNumNgbDeviation cfg"
    using rd by blast
  ultimately show ?thesis using h' both by blast
qed

theorem check_neighbours_redo_bracket_witness:
  "\<not> is_sink cfg_example gas_example \<and> \<not> DensityIterationDone gas_example \<and>
   0 \<le> MaxNumNgbDeviation cfg_example \<and> 0 < NUMDIMS cfg_example \<and> 0 < Hsml gas_example \<and>
   (0::real) \<le> 0 \<and> (0::real) \<le> 1 \<and> \<not> done_predicate cfg_example gas_example 0 1 \<and>
   bracket_left cfg_example gas_example 0 = 1 \<and> bracket_right cfg_example gas_example 1 = 1 \<and>
   (\<exists>p'. density_check_neighbours cfg_example gas_example 0 1 = Inr (p', 1, 1) \<and>
         Hsml p' = 1 \<and> MinGasHsml cfg_example \<le> Hsml p')"
proof -
  note e = example_hypotheses(1-5) example_hypotheses(6) [of 1]
  have b: "bracket_left cfg_example gas_example 0 = 1" "bracket_right cfg_example gas_example 1 = 1"
    by (simp_all add: bracket_left_def bracket_right_def cfg_example_def gas_example_def)
  have m: "\<not> (1::real) < MinGasHsml cfg_example" by (simp add: cfg_example_def)
  from check_neighbours_redo_bracket [OF e(1-5) _ _ e(6)]
  have "\<exists>p'. density_check_neighbours cfg_example gas_example 0 1 = Inr (p', 1, 1) \<and>
         Hsml p' = 1 \<and> MinGasHsml cfg_example \<le> Hsml p'"
    by (auto simp add: b m)
  with e b show ?thesis by simp
qed

subsection \<open>density\_check\_neighbours: one side of the bracket set\<close>

lemma window_bounds: "1 / 1.26 \<le> window f" "window f \<le> 1.26"
  by (simp_all add: window_def)

lemma window_grow: "1 \<le> f \<Longrightarrow> min f 1.26 = window f"
  by (simp add: window_def min_def max_def)

lemma window_shrink: "f \<le> 1 \<Longrightarrow> max f (1 / 1.26) = window f"
  by (simp add: window_def min_def max_def)

lemma newton_fac_factor:
  assumes "0 < NUMDIMS cfg" "newton_applies cfg p"
  shows "newton_fac cfg p (DesNumNgb cfg) = Inr (newton_factor cfg p)"
  using newton_fac_ok [OF assms(1), of p "DesNumNgb cfg"] assms(2)
  by (simp add: newton_applies_def newton_factor_def)

lemma newton_factor_grow:
  assumes "0 < NUMDIMS cfg" "newton_applies cfg p" "0 \<le> DhsmlDensityFactor p"
    "NumNgb p \<le> DesNumNgb cfg"
  shows "1 \<le> newton_factor cfg p"
proof -
  have n: "0 < NumNgb p" using assms(2) unfolding newton_applies_def by linarith
  with assms(1) have d: "0 < real (NUMDIMS cfg) * NumNgb p" by simp
  have "(NumNgb p - DesNumNgb cfg) / (real (NUMDIMS cfg) * NumNgb p) \<le> 0"
    using assms(4) d by (simp add: divide_nonpos_pos)
  then have "(NumNgb p - DesNumNgb cfg) / (real (NUMDIMS cfg) * NumNgb p) * DhsmlDensityFactor p \<le> 0"
    using assms(3) by (rule mult_nonpos_nonneg)
  then show ?thesis unfolding newton_factor_def by linarith
qed

lemma newton_factor_shrink:
  assumes "0 < NUMDIMS cfg" "newton_applies cfg p" "0 \<le> DhsmlDensityFactor p"
    "DesNumNgb cfg \<le> NumNgb p"
  shows "newton_factor cfg p \<le> 1"
proof -
  have n: "0 < NumNgb p" using assms(2) unfolding newton_applies_def by linarith
  with assms(1) have d: "0 < real (NUMDIMS cfg) * NumNgb p" by simp
  have "0 \<le> (NumNgb p - DesNumNgb cfg) / (real (NUMDIMS cfg) * NumNgb p)"
    using assms(4) d by simp
  then have "0 \<le> (NumNgb p - DesNumNgb cfg) / (real (NUMDIMS cfg) * NumNgb p) * DhsmlDensityFactor p"
    using assms(3) by (rule mult_nonneg_nonneg)
  then show ?thesis unfolding newton_factor_def by linarith
qed

lemma step_factor_bounds: "1 / 1.26 \<le> step_factor cfg p r'" "step_factor cfg p r' \<le> 1.26"
  using window_bounds [of "newton_factor cfg p"] by (simp_all add: step_factor_def)

lemma hsml_update_one_sided:
  assumes tol: "0 \<le> MaxNumNgbDeviation cfg" and dims: "0 < NUMDIMS cfg"
    and h: "0 < Hsml p" and l: "0 \<le> l" and r: "0 \<le> r"
    and rd: "NumNgb p < DesNumNgb cfg - MaxNumNgbDeviation cfg \<or>
          (NumNgb p > DesNumNgb cfg + MaxNumNgbDeviation cfg \<and> Hsml p > 1.01 * MinGasHsml cfg)"
    and one: "\<not> (0 < bracket_left cfg p l \<and> 0 < bracket_right cfg p r)"
    and dh: "0 \<le> DhsmlDensityFactor p"
  shows "hsml_update cfg p (DesNumNgb cfg) (bracket_left cfg p l) (bracket_right cfg p r)
           = Inr (Hsml p * step_factor cfg p (bracket_right cfg p r))"
proof -
  note b = bracket_bounds [OF h l r rd]
  consider (grow) "0 < bracket_left cfg p l" "bracket_right cfg p r = 0"
    | (shrink) "bracket_left cfg p l = 0" "0 < bracket_right cfg p r"
    using b one by fastforce
  then show ?thesis
  proof cases
    case grow
    have few: "NumNgb p \<le> DesNumNgb cfg"
    proof (rule ccontr)
      assume "\<not> NumNgb p \<le> DesNumNgb cfg"
      with tol have "\<not> NumNgb p < DesNumNgb cfg - MaxNumNgbDeviation cfg" by linarith
      then have "0 < bracket_right cfg p r" using h r
        by (auto simp add: bracket_right_def min_def)
      with grow(2) show False by simp
    qed
    show ?thesis
    proof (cases "newton_applies cfg p")
      case True
      then have g: "Type p = 0" "\<bar>NumNgb p - DesNumNgb cfg\<bar> < 0.5 * DesNumNgb cfg"
        by (simp_all add: newton_applies_def)
      from hsml_update_grow_newton [OF grow g newton_fac_factor [OF dims True]]
        window_grow [OF newton_factor_grow [OF dims True dh few]] True
      show ?thesis by (simp add: step_factor_def)
    next
      case False
      then have "\<not> (Type p = 0 \<and> \<bar>NumNgb p - DesNumNgb cfg\<bar> < 0.5 * DesNumNgb cfg)"
        by (simp add: newton_applies_def)
      from hsml_update_grow_plain [OF grow this] False grow(2)
      show ?thesis by (simp add: step_factor_def)
    qed
  next
    case shrink
    have many: "DesNumNgb cfg \<le> NumNgb p"
    proof (rule ccontr)
      assume "\<not> DesNumNgb cfg \<le> NumNgb p"
      with rd tol have "NumNgb p < DesNumNgb cfg - MaxNumNgbDeviation cfg" by linarith
      then have "0 < bracket_left cfg p l" using h l
        by (auto simp add: bracket_left_def max_def)
      with shrink(1) show False by simp
    qed
    show ?thesis
    proof (cases "newton_applies cfg p")
      case True
      then have g: "Type p = 0" "\<bar>NumNgb p - DesNumNgb cfg\<bar> < 0.5 * DesNumNgb cfg"
        by (simp_all add: newton_applies_def)
      from hsml_update_shrink_newton [OF shrink g newton_fac_factor [OF dims True]]
        window_shrink [OF newton_factor_shrink [OF dims True dh many]] True
      show ?thesis by (simp add: step_factor_def)
    next
      case False
      then have "\<not> (Type p = 0 \<and> \<bar>NumNgb p - DesNumNgb cfg\<bar> < 0.5 * DesNumNgb cfg)"
        by (simp add: newton_applies_def)
      from hsml_update_shrink_plain [OF shrink this] False shrink(2)
      show ?thesis by (simp add: step_factor_def)
    qed
  qed
qed

text \<open>
  Claim C3, as stated: with one side of the bracket set the updated smoothing length
  always lies within a factor \<open>1.26\<close> of the previous one. This fails where the floor of
  lines 687 and 688 takes over. With \<open>H_min = 10\<close>, the gas particle with \<open>h = 1\<close> and 20
  of 32 neighbours gets \<open>Left = 1\<close>, \<open>Right = 0\<close>, the Newton-like factor \<open>1.2\<close> and the
  proposal \<open>1.2\<close>, and the stored smoothing length is \<open>10\<close>.
\<close>

theorem newton_step_floor_counterexample:
  "newton_applies cfg_high_floor gas_example \<and>
   density_check_neighbours cfg_high_floor gas_example 0 0 = Inr (gas_example\<lparr>Hsml := 10\<rparr>, 1, 0) \<and>
   \<not> Hsml (gas_example\<lparr>Hsml := 10\<rparr>) \<le> 1.26 * Hsml gas_example"
  by (simp add: density_check_neighbours_def hsml_update_def newton_fac_def fdiv_def DMAX_def
      newton_applies_def cfg_high_floor_def cfg_example_def gas_example_def Let_def)

text \<open>
  Claim C3, amended: when, after the bracket update, one side of the bracket is set and
  the other is not, the particle is not a sink and its \<^verbatim>\<open>DhsmlDensityFactor\<close> is not
  negative (as \<open>density_post_process\<close> leaves it for \<open>\<rho> > 0\<close>), the proposed smoothing
  length is \<open>h\<close> times a factor: for a gas particle with \<open>|N_ngb - N*| < 0.5 N*\<close> the
  Newton-like factor \<open>1 - ((N_ngb - N*) / (D N_ngb)) \<cdot> DhsmlDensityFactor\<close> held in the window
  \<open>[1/1.26, 1.26]\<close>, otherwise exactly \<open>1.26\<close> when \<open>Right\<close> is not set and exactly
  \<open>1/1.26\<close> when \<open>Left\<close> is not set. The proposal lies within a factor \<open>1.26\<close> of \<open>h\<close>.
  The stored smoothing length is the larger of the proposal and \<open>H_min\<close>; it lies within
  the factor \<open>1.26\<close> of \<open>h\<close> whenever \<open>H_min \<le> 1.26 h\<close>.
\<close>

theorem newton_step_window:
  assumes gas: "\<not> is_sink cfg p" and fresh: "\<not> DensityIterationDone p"
    and tol: "0 \<le> MaxNumNgbDeviation cfg" and dims: "0 < NUMDIMS cfg"
    and h: "0 < Hsml p" and l: "0 \<le> l" and r: "0 \<le> r"
    and redo: "\<not> done_predicate cfg p l r"
    and one: "\<not> (0 < bracket_left cfg p l \<and> 0 < bracket_right cfg p r)"
    and dh: "0 \<le> DhsmlDensityFactor p"
  shows "density_check_neighbours cfg p l r =
           Inr (p\<lparr>Hsml := max (MinGasHsml cfg) (Hsml p * step_factor cfg p (bracket_right cfg p r))\<rparr>,
                bracket_left cfg p l, bracket_right cfg p r) \<and>
         Hsml p / 1.26 \<le> Hsml p * step_factor cfg p (bracket_right cfg p r) \<and>
         Hsml p * step_factor cfg p (bracket_right cfg p r) \<le> 1.26 * Hsml p \<and>
         (MinGasHsml cfg \<le> 1.26 * Hsml p \<longrightarrow>
            Hsml p / 1.26 \<le> max (MinGasHsml cfg) (Hsml p * step_factor cfg p (bracket_right cfg p r)) \<and>
            max (MinGasHsml cfg) (Hsml p * step_factor cfg p (bracket_right cfg p r)) \<le> 1.26 * Hsml p)"
proof -
  note rd = redo_of_not_done [OF tol redo]
  note u = hsml_update_one_sided [OF tol dims h l r rd one dh]
  note c = check_redo [OF gas tol fresh redo u]
  define s where "s = step_factor cfg p (bracket_right cfg p r)"
  have s: "1 / 1.26 \<le> s" "s \<le> 1.26" unfolding s_def by (rule step_factor_bounds)+
  have lo: "Hsml p / 1.26 \<le> Hsml p * s"
    using mult_left_mono [OF s(1), of "Hsml p"] h by simp
  have hi: "Hsml p * s \<le> 1.26 * Hsml p"
    using mult_left_mono [OF s(2), of "Hsml p"] h by (simp add: mult.commute)
  show ?thesis using c lo hi unfolding s_def [symmetric] by (simp add: max_def)
qed

theorem newton_step_window_witness:
  "\<not> is_sink cfg_example gas_example \<and> \<not> DensityIterationDone gas_example \<and>
   0 \<le> MaxNumNgbDeviation cfg_example \<and> 0 < NUMDIMS cfg_example \<and> 0 < Hsml gas_example \<and>
   (0::real) \<le> 0 \<and> \<not> done_predicate cfg_example gas_example 0 0 \<and>
   \<not> (0 < bracket_left cfg_example gas_example 0 \<and> 0 < bracket_right cfg_example gas_example 0) \<and>
   0 \<le> DhsmlDensityFactor gas_example \<and>
   MinGasHsml cfg_example \<le> 1.26 * Hsml gas_example \<and>
   newton_applies cfg_example gas_example \<and>
   newton_factor cfg_example gas_example = 6 / 5 \<and>
   step_factor cfg_example gas_example (bracket_right cfg_example gas_example 0) = 6 / 5 \<and>
   density_check_neighbours cfg_example gas_example 0 0 = Inr (gas_example\<lparr>Hsml := 6 / 5\<rparr>, 1, 0) \<and>
   Hsml gas_example / 1.26 \<le> 6 / 5 \<and> (6 / 5 :: real) \<le> 1.26 * Hsml gas_example"
proof -
  note e = example_hypotheses(1-5) example_hypotheses(6) [of 0]
  have b: "bracket_left cfg_example gas_example 0 = 1" "bracket_right cfg_example gas_example 0 = 0"
    by (simp_all add: bracket_left_def bracket_right_def cfg_example_def gas_example_def)
  have one: "\<not> (0 < bracket_left cfg_example gas_example 0 \<and>
                 0 < bracket_right cfg_example gas_example 0)"
    by (simp add: b)
  have dh: "0 \<le> DhsmlDensityFactor gas_example" by (simp add: gas_example_def)
  have fl: "MinGasHsml cfg_example \<le> 1.26 * Hsml gas_example"
    by (simp add: cfg_example_def gas_example_def)
  have na: "newton_applies cfg_example gas_example"
    by (simp add: newton_applies_def cfg_example_def gas_example_def)
  have nf: "newton_factor cfg_example gas_example = 6 / 5"
    by (simp add: newton_factor_def cfg_example_def gas_example_def)
  have sf: "step_factor cfg_example gas_example (bracket_right cfg_example gas_example 0) = 6 / 5"
    by (simp add: step_factor_def na nf window_def)
  have hs: "Hsml gas_example = 1" by (simp add: gas_example_def)
  have mg: "MinGasHsml cfg_example = 1 / 100" by (simp add: cfg_example_def)
  have sf0: "step_factor cfg_example gas_example 0 = 6 / 5" using sf by (simp add: b)
  from newton_step_window [OF e(1-5) _ _ e(6) one dh]
  have "density_check_neighbours cfg_example gas_example 0 0 = Inr (gas_example\<lparr>Hsml := 6 / 5\<rparr>, 1, 0) \<and>
        Hsml gas_example / 1.26 \<le> 6 / 5 \<and> (6 / 5 :: real) \<le> 1.26 * Hsml gas_example"
    by (simp add: sf0 b hs mg)
  with e one dh fl na nf sf show ?thesis by simp
qed

section \<open>Properties of density.c: the iteration\<close>

subsection \<open>Particles that are done stay out of the queue\<close>

lemma density_isactive_done:
  "DensityIterationDone p \<Longrightarrow> density_isactive cfg p = Inr False"
  by (simp add: density_isactive_def)

lemma queue_excludes_done:
  "treewalk_get_queue cfg P active = Inr q \<Longrightarrow> DensityIterationDone (P i) \<Longrightarrow> i \<notin> set q"
proof (induction active arbitrary: q)
  case Nil
  then show ?case by simp
next
  case (Cons a rest)
  show ?case
  proof (cases "a = i")
    case True
    with Cons show ?thesis
      by (auto simp add: density_isactive_done split: sum.splits)
  next
    case False
    with Cons show ?thesis
      by (auto split: sum.splits if_splits)
  qed
qed

lemma fold_upd_other:
  "i \<notin> set q \<Longrightarrow> fold (\<lambda>p P. P(p := f p (P p))) q P i = P i"
  by (induction q arbitrary: P) auto

lemma treewalk_run_frame:
  assumes "treewalk_run cfg walk active s = Inr s'" "DensityIterationDone (Part s i)"
  shows "Part s' i = Part s i \<and> Left s' = Left s \<and> Right s' = Right s"
proof -
  from assms(1) obtain q where q: "treewalk_get_queue cfg (Part s) active = Inr q"
    and s': "s' = s\<lparr>Part := fold (\<lambda>p P. P(p := reduce_target cfg (walk (Part s) p) (P p)))
                               q (Part s)\<rparr>"
    by (auto simp add: treewalk_run_def split: sum.splits)
  have "i \<notin> set q" using queue_excludes_done [OF q assms(2)] .
  then show ?thesis unfolding s'
    by (simp add: fold_upd_other [where f = "\<lambda>p. reduce_target cfg (walk (Part s) p)"])
qed

lemma finalise_queue_frame:
  "finalise_queue cfg q s n = Inr (s', n') \<Longrightarrow> i \<notin> set q \<Longrightarrow>
     Part s' i = Part s i \<and> Left s' i = Left s i \<and> Right s' i = Right s i"
proof (induction q arbitrary: s n)
  case Nil
  then show ?case by simp
next
  case (Cons p q)
  from Cons.prems(1) obtain p1 p2 l r where
    rest: "finalise_queue cfg q
             (s\<lparr>Part := (Part s)(p := p2), Left := (Left s)(p := l), Right := (Right s)(p := r)\<rparr>)
             (if \<not> DensityIterationDone p2 then n + 1 else n) = Inr (s', n')"
    by (auto split: sum.splits prod.splits)
  from Cons.prems(2) have "i \<noteq> p" "i \<notin> set q" by simp_all
  from Cons.IH [OF rest this(2)] this(1) show ?case by simp
qed

lemma density_pass_frame:
  assumes "density_pass cfg w k active s = Inr (s', ntot)" "DensityIterationDone (Part s i)"
  shows "Part s' i = Part s i \<and> Left s' i = Left s i \<and> Right s' i = Right s i"
proof -
  from assms(1) obtain s1 q n where
    run: "treewalk_run cfg w active s = Inr s1"
    and q: "treewalk_get_queue cfg (Part s1) active = Inr q"
    and fin: "finalise_queue cfg q s1 0 = Inr (s', n)"
    by (auto simp add: density_pass_def split: sum.splits prod.splits)
  note f1 = treewalk_run_frame [OF run assms(2)]
  then have "DensityIterationDone (Part s1 i)" using assms(2) by simp
  from queue_excludes_done [OF q this] have "i \<notin> set q" .
  from finalise_queue_frame [OF fin this] f1 show ?thesis by simp
qed

lemma after_passes_frame:
  "after_passes cfg walk others active n iter s = Some s' \<Longrightarrow> DensityIterationDone (Part s i) \<Longrightarrow>
     Part s' i = Part s i \<and> Left s' i = Left s i \<and> Right s' i = Right s i"
proof (induction n arbitrary: iter s)
  case 0
  then show ?case by simp
next
  case (Suc n)
  from Suc.prems(1) obtain s1 ntot where
    p: "density_pass cfg (walk iter) (others iter) active s = Inr (s1, ntot)"
    and rest: "after_passes cfg walk others active n (Suc iter) s1 = Some s'"
    by (auto split: sum.splits prod.splits if_splits)
  note f = density_pass_frame [OF p Suc.prems(2)]
  then have "DensityIterationDone (Part s1 i)" using Suc.prems(2) by simp
  from Suc.IH [OF rest this] f show ?case by simp
qed

lemma density_loop_frame:
  "density_loop cfg walk others active iter s = Inr s' \<Longrightarrow> DensityIterationDone (Part s i) \<Longrightarrow>
     Part s' i = Part s i \<and> Left s' i = Left s i \<and> Right s' i = Right s i"
proof (induction cfg walk others active iter s rule: density_loop.induct)
  case (1 cfg walk others active iter s)
  from "1.prems"(1) obtain s1 ntot where
    p: "density_pass cfg (walk iter) (others iter) active s = Inr (s1, ntot)"
    by (subst (asm) density_loop.simps) (auto split: sum.splits prod.splits)
  note f = density_pass_frame [OF p "1.prems"(2)]
  then have d: "DensityIterationDone (Part s1 i)" using "1.prems"(2) by simp
  show ?case
  proof (cases "ntot > 0")
    case True
    with "1.prems"(1) p have more: "\<not> iter + 1 > MAXITER cfg"
      and rest: "density_loop cfg walk others active (iter + 1) s1 = Inr s'"
      by (subst (asm) density_loop.simps; simp split: if_splits)+
    from "1.IH" [OF p refl True more rest d] f show ?thesis by simp
  next
    case False
    with "1.prems"(1) p have "s' = s1"
      by (subst (asm) density_loop.simps) simp
    with f show ?thesis by simp
  qed
qed

subsection \<open>A run of the example\<close>

lemma example_reduce:
  "reduce_target cfg_example (walk_example k P 7) gas_example =
     gas_example\<lparr>NumNgb := 32, DhsmlDensityFactor := 0\<rparr>"
  by (simp add: reduce_target_def walk_example_def density_reduce_def TREEWALK_REDUCE_def
      TREEWALK_REDUCE3_def result_example_def gas_example_def cfg_example_def Let_def)

lemma example_post_process:
  "density_post_process cfg_example (gas_example\<lparr>NumNgb := 32, DhsmlDensityFactor := 0\<rparr>)
     = Inr (gas_example\<lparr>NumNgb := 32\<rparr>)"
  by (simp add: density_post_process_def sph_normalise_def sph_pressure_def fdiv_def c_trunc_def
      gas_example_def cfg_example_def Let_def)

lemma example_check:
  "density_check_neighbours cfg_example (gas_example\<lparr>NumNgb := 32\<rparr>) 0 0
     = Inr (converged_example, 0, 0)"
  by (simp add: density_check_neighbours_def converged_example_def gas_example_def
      cfg_example_def Let_def)

text \<open>
  One pass over the example state for an active list whose queue is particle 7 alone:
  the walk stores 32 neighbours, the particle converges, the count is zero.
\<close>

lemma example_pass:
  assumes q1: "treewalk_get_queue cfg_example (Part state_example) active = Inr [7]"
    and q2: "treewalk_get_queue cfg_example
        ((Part state_example)(7 := gas_example\<lparr>NumNgb := 32, DhsmlDensityFactor := 0\<rparr>)) active
        = Inr [7]"
  shows "density_pass cfg_example (walk_example k) 0 active state_example =
     Inr (state_example\<lparr>Part := (Part state_example)(7 := converged_example)\<rparr>, 0)"
proof -
  define s1 where "s1 = state_example\<lparr>Part := (Part state_example)
      (7 := gas_example\<lparr>NumNgb := 32, DhsmlDensityFactor := 0\<rparr>)\<rparr>"
  have "Part state_example 7 = gas_example" by (simp add: state_example_def)
  then have r: "treewalk_run cfg_example (walk_example k) active state_example = Inr s1"
    unfolding treewalk_run_def q1 s1_def by (simp add: example_reduce)
  have q: "treewalk_get_queue cfg_example (Part s1) active = Inr [7]"
    using q2 by (simp add: s1_def)
  have p7: "Part s1 7 = gas_example\<lparr>NumNgb := 32, DhsmlDensityFactor := 0\<rparr>"
    "Left s1 7 = 0" "Right s1 7 = 0"
    by (simp_all add: s1_def state_example_def)
  have d: "DensityIterationDone converged_example" by (simp add: converged_example_def)
  have f0: "finalise_queue cfg_example [7] s1 0 =
      Inr (s1\<lparr>Part := (Part s1)(7 := converged_example), Left := (Left s1)(7 := 0),
               Right := (Right s1)(7 := 0)\<rparr>, 0)"
    by (simp add: p7 example_post_process example_check d)
  have e: "s1\<lparr>Part := (Part s1)(7 := converged_example), Left := (Left s1)(7 := 0),
               Right := (Right s1)(7 := 0)\<rparr> =
           state_example\<lparr>Part := (Part state_example)(7 := converged_example)\<rparr>"
    by (simp add: s1_def state_example_def fun_eq_iff)
  have f: "finalise_queue cfg_example [7] s1 0 =
      Inr (state_example\<lparr>Part := (Part state_example)(7 := converged_example)\<rparr>, 0)"
    unfolding f0 e by (rule refl)
  show ?thesis
    by (simp only: density_pass_def r q f sum.case prod.case add_0_right)
qed

lemma example_queue:
  "treewalk_get_queue cfg_example (Part state_example) [3, 7] = Inr [7]"
  by (simp add: state_example_def gas_example_def density_isactive_def cfg_example_def)

lemma example_pass_two:
  "density_pass cfg_example (walk_example k) 0 [3, 7] state_example =
     Inr (state_example\<lparr>Part := (Part state_example)(7 := converged_example)\<rparr>, 0)"
  by (rule example_pass)
    (simp_all add: state_example_def gas_example_def density_isactive_def cfg_example_def)

lemma example_pass_one:
  "density_pass cfg_example (walk_example k) 0 [7] state_example =
     Inr (state_example\<lparr>Part := (Part state_example)(7 := converged_example)\<rparr>, 0)"
  by (rule example_pass)
    (simp_all add: state_example_def gas_example_def density_isactive_def cfg_example_def)

lemma example_loop:
  "density_loop cfg_example walk_example (\<lambda>k. 0) [3, 7] 0 state_example =
   Inr (state_example\<lparr>Part := (Part state_example)(7 := converged_example)\<rparr>)"
  unfolding density_loop.simps [of cfg_example walk_example "\<lambda>k. 0" "[3, 7]" 0 state_example]
    example_pass_two
  by simp

lemma example_init: "density_init cfg_example [7] state_example = Inr state_example"
proof -
  have c: "clear_flags [7] (Part state_example) = Part state_example"
    by (simp add: clear_flags_def state_example_def gas_example_def fun_eq_iff)
  have q: "treewalk_get_queue cfg_example (Part state_example) [7] = Inr [7]"
    by (simp add: state_example_def gas_example_def density_isactive_def cfg_example_def)
  have s: "state_example\<lparr>Part := Part state_example\<rparr> = state_example" by simp
  have b: "init_brackets cfg_example [7] state_example = state_example"
    by (simp add: init_brackets_def state_example_def cfg_example_def fun_eq_iff)
  show ?thesis
    unfolding density_init_def Let_def c s q sum.case b by (rule refl)
qed

text \<open>
  Claim C10: once \<^verbatim>\<open>DensityIterationDone\<close> is set for particle \<open>i\<close>, \<open>density_isactive\<close>
  returns 0 for it, no queue built from the state holds it, and whatever the rest of the
  loop does (any number of further passes that end with a nonzero count, and the loop
  as a whole when it returns), the particle \<^verbatim>\<open>P[i]\<close> with all its fields, \<^verbatim>\<open>Left[i]\<close>
  and \<^verbatim>\<open>Right[i]\<close> stay as they were. The queue and the walk are those of the tree-walk
  driver as the spec describes them.
\<close>

theorem done_particle_frame:
  assumes "DensityIterationDone (Part s i)"
  shows "density_isactive cfg (Part s i) = Inr False \<and>
     (\<forall>q. treewalk_get_queue cfg (Part s) active = Inr q \<longrightarrow> i \<notin> set q) \<and>
     (\<forall>n s'. after_passes cfg walk others active n iter s = Some s' \<longrightarrow>
        Part s' i = Part s i \<and> Left s' i = Left s i \<and> Right s' i = Right s i \<and>
        (\<forall>q. treewalk_get_queue cfg (Part s') active = Inr q \<longrightarrow> i \<notin> set q)) \<and>
     (\<forall>s'. density_loop cfg walk others active iter s = Inr s' \<longrightarrow>
        Part s' i = Part s i \<and> Left s' i = Left s i \<and> Right s' i = Right s i)"
proof (intro conjI allI impI)
  show "density_isactive cfg (Part s i) = Inr False"
    using assms by (rule density_isactive_done)
next
  fix q assume "treewalk_get_queue cfg (Part s) active = Inr q"
  then show "i \<notin> set q" using assms by (rule queue_excludes_done)
next
  fix n s' assume a: "after_passes cfg walk others active n iter s = Some s'"
  note f = after_passes_frame [OF a assms]
  from f show "Part s' i = Part s i" by simp
  from f show "Left s' i = Left s i" by simp
  from f show "Right s' i = Right s i" by simp
  fix q assume "treewalk_get_queue cfg (Part s') active = Inr q"
  moreover have "DensityIterationDone (Part s' i)" using f assms by simp
  ultimately show "i \<notin> set q" by (rule queue_excludes_done)
next
  fix s' assume a: "density_loop cfg walk others active iter s = Inr s'"
  note f = density_loop_frame [OF a assms]
  from f show "Part s' i = Part s i" by simp
  from f show "Left s' i = Left s i" by simp
  from f show "Right s' i = Right s i" by simp
qed

theorem done_particle_frame_witness:
  "DensityIterationDone (Part state_example 3) \<and>
   density_isactive cfg_example (Part state_example 3) = Inr False \<and>
   treewalk_get_queue cfg_example (Part state_example) [3, 7] = Inr [7] \<and>
   (\<exists>s'. density_loop cfg_example walk_example (\<lambda>k. 0) [3, 7] 0 state_example = Inr s' \<and>
         DensityIterationDone (Part s' 7) \<and>
         Part s' 3 = Part state_example 3 \<and> Left s' 3 = Left state_example 3 \<and>
         Right s' 3 = Right state_example 3)"
proof -
  have d: "DensityIterationDone (Part state_example 3)"
    by (simp add: state_example_def)
  note t = done_particle_frame [OF d, of cfg_example "[3, 7]" walk_example "\<lambda>k. 0" 0]
  from t have a: "density_isactive cfg_example (Part state_example 3) = Inr False" by blast
  from t example_loop
  have "Part (state_example\<lparr>Part := (Part state_example)(7 := converged_example)\<rparr>) 3
          = Part state_example 3 \<and>
        Left (state_example\<lparr>Part := (Part state_example)(7 := converged_example)\<rparr>) 3
          = Left state_example 3 \<and>
        Right (state_example\<lparr>Part := (Part state_example)(7 := converged_example)\<rparr>) 3
          = Right state_example 3"
    by blast
  moreover have "DensityIterationDone
      (Part (state_example\<lparr>Part := (Part state_example)(7 := converged_example)\<rparr>) 7)"
    by (simp add: converged_example_def)
  ultimately show ?thesis using d a example_queue example_loop by blast
qed

subsection \<open>How the iteration ends\<close>

lemma density_loop_continue:
  "after_passes cfg walk others active n iter s = Some s' \<Longrightarrow> iter + n \<le> MAXITER cfg \<Longrightarrow>
     density_loop cfg walk others active iter s = density_loop cfg walk others active (iter + n) s'"
proof (induction n arbitrary: iter s)
  case 0
  then show ?case by simp
next
  case (Suc n)
  from Suc.prems(1) obtain s1 ntot where
    p: "density_pass cfg (walk iter) (others iter) active s = Inr (s1, ntot)"
    and pos: "ntot > 0"
    and rest: "after_passes cfg walk others active n (Suc iter) s1 = Some s'"
    by (auto split: sum.splits prod.splits if_splits)
  from Suc.prems(2) have le: "Suc iter + n \<le> MAXITER cfg"
    and lt: "(MAXITER cfg < Suc iter) = False" by simp_all
  have "density_loop cfg walk others active iter s = density_loop cfg walk others active (iter + 1) s1"
    by (subst density_loop.simps) (simp add: p pos lt)
  also have "\<dots> = density_loop cfg walk others active (Suc iter + n) s'"
    using Suc.IH [OF rest le] by simp
  finally show ?case by simp
qed

lemma density_loop_exit:
  "density_pass cfg (walk iter) (others iter) active s = Inr (s', 0) \<Longrightarrow>
     density_loop cfg walk others active iter s = Inr s'"
  by (subst density_loop.simps) simp

lemma density_loop_fatal:
  "density_pass cfg (walk iter) (others iter) active s = Inr (s', ntot) \<Longrightarrow> ntot > 0 \<Longrightarrow>
     iter \<ge> MAXITER cfg \<Longrightarrow>
     density_loop cfg walk others active iter s = Inl (Endrun 1155)"
  by (subst density_loop.simps) simp

lemma after_passes_last:
  "after_passes cfg walk others active (Suc n) iter s = Some s' \<Longrightarrow>
     \<exists>sn ntot. after_passes cfg walk others active n iter s = Some sn \<and> ntot > 0 \<and>
       density_pass cfg (walk (iter + n)) (others (iter + n)) active sn = Inr (s', ntot)"
proof (induction n arbitrary: iter s)
  case 0
  then show ?case by (auto split: sum.splits prod.splits if_splits)
next
  case (Suc n)
  from Suc.prems obtain s1 ntot where
    p: "density_pass cfg (walk iter) (others iter) active s = Inr (s1, ntot)"
    and pos: "ntot > 0"
    and rest: "after_passes cfg walk others active (Suc n) (Suc iter) s1 = Some s'"
    by (auto split: sum.splits prod.splits if_splits)
  from Suc.IH [OF rest] obtain sn m where
    "after_passes cfg walk others active n (Suc iter) s1 = Some sn" "m > 0"
    "density_pass cfg (walk (Suc iter + n)) (others (Suc iter + n)) active sn = Inr (s', m)"
    by blast
  then show ?case using p pos by auto
qed

lemma empty_pass: "density_pass cfg w k [] s = Inr (s, k)"
  by (simp add: density_pass_def treewalk_run_def)

lemma empty_init: "density_init cfg [] s = Inr s"
  by (simp add: density_init_def clear_flags_def init_brackets_def)

subsection \<open>Two runs of one particle\<close>

text \<open>A pass whose queue, before and after the walk, is the single particle \<open>i\<close>.\<close>

lemma single_particle_pass:
  assumes q1: "treewalk_get_queue cfg (Part s) active = Inr [i]"
    and red: "reduce_target cfg (w (Part s) i) (Part s i) = p1"
    and q2: "treewalk_get_queue cfg ((Part s)(i := p1)) active = Inr [i]"
    and pp: "density_post_process cfg p1 = Inr p2"
    and cn: "density_check_neighbours cfg p2 (Left s i) (Right s i) = Inr (p3, l, r)"
  shows "density_pass cfg w k active s =
           Inr (s\<lparr>Part := (Part s)(i := p3), Left := (Left s)(i := l), Right := (Right s)(i := r)\<rparr>,
                (if \<not> DensityIterationDone p3 then 1 else 0) + k)"
proof -
  define s1 where "s1 = s\<lparr>Part := (Part s)(i := p1)\<rparr>"
  have r: "treewalk_run cfg w active s = Inr s1"
    unfolding treewalk_run_def q1 s1_def by (simp add: red)
  have q: "treewalk_get_queue cfg (Part s1) active = Inr [i]"
    using q2 by (simp add: s1_def)
  have f: "finalise_queue cfg [i] s1 0 =
      Inr (s\<lparr>Part := (Part s)(i := p3), Left := (Left s)(i := l), Right := (Right s)(i := r)\<rparr>,
           if \<not> DensityIterationDone p3 then 1 else 0)"
    by (simp add: s1_def pp cn)
  show ?thesis
    by (simp only: density_pass_def r q f sum.case prod.case)
qed

lemma queue_single:
  "\<not> DensityIterationDone (P 7) \<Longrightarrow> Type (P 7) = 0 \<Longrightarrow> TimeBin (P 7) = 0 \<Longrightarrow>
     treewalk_get_queue cfg P [7] = Inr [7]"
  by (simp add: density_isactive_def)

lemma sparse_reduce:
  "reduce_target cfg_example (walk_sparse k P 7) (gas_example\<lparr>Hsml := h\<rparr>) =
     gas_example\<lparr>Hsml := h, DhsmlDensityFactor := 0\<rparr>"
  by (simp add: reduce_target_def walk_sparse_def sparse_result_def density_reduce_def
      TREEWALK_REDUCE_def TREEWALK_REDUCE3_def result_example_def gas_example_def
      cfg_example_def Let_def)

lemma sparse_post_process:
  "density_post_process cfg_example (gas_example\<lparr>Hsml := h, DhsmlDensityFactor := 0\<rparr>)
     = Inr (gas_example\<lparr>Hsml := h\<rparr>)"
  by (simp add: density_post_process_def sph_normalise_def sph_pressure_def fdiv_def c_trunc_def
      gas_example_def cfg_example_def Let_def)

lemma check_second_sparse:
  "density_check_neighbours cfg_example (gas_example\<lparr>Hsml := 6 / 5\<rparr>) 1 0 =
     Inr (gas_example\<lparr>Hsml := 36 / 25\<rparr>, 6 / 5, 0)"
  by (simp add: density_check_neighbours_def hsml_update_def newton_fac_def fdiv_def DMAX_def
      cfg_example_def gas_example_def Let_def)

lemma dense_reduce:
  "reduce_target cfg_example (walk_example k P 7) (gas_example\<lparr>Hsml := h\<rparr>) =
     gas_example\<lparr>Hsml := h, NumNgb := 32, DhsmlDensityFactor := 0\<rparr>"
  by (simp add: reduce_target_def walk_example_def density_reduce_def
      TREEWALK_REDUCE_def TREEWALK_REDUCE3_def result_example_def gas_example_def
      cfg_example_def Let_def)

lemma dense_post_process:
  "density_post_process cfg_example (gas_example\<lparr>Hsml := h, NumNgb := 32, DhsmlDensityFactor := 0\<rparr>)
     = Inr (gas_example\<lparr>Hsml := h, NumNgb := 32\<rparr>)"
  by (simp add: density_post_process_def sph_normalise_def sph_pressure_def fdiv_def c_trunc_def
      gas_example_def cfg_example_def Let_def)

lemma check_second_dense:
  "density_check_neighbours cfg_example (gas_example\<lparr>Hsml := 6 / 5, NumNgb := 32\<rparr>) 1 0 =
     Inr (gas_example\<lparr>Hsml := 6 / 5, NumNgb := 32, DensityIterationDone := True\<rparr>, 1, 0)"
  by (simp add: density_check_neighbours_def cfg_example_def gas_example_def Let_def)

lemma check_first:
  "density_check_neighbours cfg_example (gas_example\<lparr>Hsml := 1\<rparr>) 0 0 =
     Inr (gas_example\<lparr>Hsml := 6 / 5\<rparr>, 1, 0)"
  by (simp add: density_check_neighbours_def hsml_update_def newton_fac_def fdiv_def DMAX_def
      cfg_example_def gas_example_def Let_def)

lemma first_pass:
  "density_pass cfg_example (walk_sparse k) 0 [7] state_example = Inr (state_after_first, 1)"
proof -
  have p: "Part state_example 7 = gas_example\<lparr>Hsml := 1\<rparr>" "Left state_example 7 = 0"
    "Right state_example 7 = 0"
    by (simp_all add: state_example_def gas_example_def)
  have q1: "treewalk_get_queue cfg_example (Part state_example) [7] = Inr [7]"
    by (rule queue_single) (simp_all add: p gas_example_def)
  have red: "reduce_target cfg_example (walk_sparse k (Part state_example) 7) (Part state_example 7)
      = gas_example\<lparr>Hsml := 1, DhsmlDensityFactor := 0\<rparr>"
    by (simp only: p sparse_reduce)
  have q2: "treewalk_get_queue cfg_example
      ((Part state_example)(7 := gas_example\<lparr>Hsml := 1, DhsmlDensityFactor := 0\<rparr>)) [7] = Inr [7]"
    by (rule queue_single) (simp_all add: gas_example_def)
  have cn: "density_check_neighbours cfg_example (gas_example\<lparr>Hsml := 1\<rparr>)
      (Left state_example 7) (Right state_example 7) = Inr (gas_example\<lparr>Hsml := 6 / 5\<rparr>, 1, 0)"
    by (simp only: p check_first)
  have n: "\<not> DensityIterationDone (gas_example\<lparr>Hsml := 6 / 5\<rparr>)" by (simp add: gas_example_def)
  from single_particle_pass [where w = "walk_sparse k" and k = 0,
      OF q1 red q2 sparse_post_process cn] n
  show ?thesis by (simp add: state_after_first_def)
qed

lemma after_first:
  "Part state_after_first 7 = gas_example\<lparr>Hsml := 6 / 5\<rparr>" "Left state_after_first 7 = 1"
  "Right state_after_first 7 = 0"
  by (simp_all add: state_after_first_def)

lemma second_pass_dense:
  "density_pass cfg_example (walk_example k) 0 [7] state_after_first = Inr (state_after_second, 0)"
proof -
  note p = after_first
  have q1: "treewalk_get_queue cfg_example (Part state_after_first) [7] = Inr [7]"
    by (rule queue_single) (simp_all add: p gas_example_def)
  have red: "reduce_target cfg_example (walk_example k (Part state_after_first) 7)
      (Part state_after_first 7) = gas_example\<lparr>Hsml := 6 / 5, NumNgb := 32, DhsmlDensityFactor := 0\<rparr>"
    by (simp only: p dense_reduce)
  have q2: "treewalk_get_queue cfg_example
      ((Part state_after_first)(7 := gas_example\<lparr>Hsml := 6 / 5, NumNgb := 32, DhsmlDensityFactor := 0\<rparr>))
      [7] = Inr [7]"
    by (rule queue_single) (simp_all add: gas_example_def)
  have cn: "density_check_neighbours cfg_example (gas_example\<lparr>Hsml := 6 / 5, NumNgb := 32\<rparr>)
      (Left state_after_first 7) (Right state_after_first 7) =
      Inr (gas_example\<lparr>Hsml := 6 / 5, NumNgb := 32, DensityIterationDone := True\<rparr>, 1, 0)"
    by (simp only: p check_second_dense)
  from single_particle_pass [where w = "walk_example k" and k = 0,
      OF q1 red q2 dense_post_process cn]
  show ?thesis by (simp add: state_after_second_def)
qed

lemma second_pass_sparse:
  "density_pass cfg_example (walk_sparse k) 0 [7] state_after_first = Inr (state_after_sparse, 1)"
proof -
  note p = after_first
  have q1: "treewalk_get_queue cfg_example (Part state_after_first) [7] = Inr [7]"
    by (rule queue_single) (simp_all add: p gas_example_def)
  have red: "reduce_target cfg_example (walk_sparse k (Part state_after_first) 7)
      (Part state_after_first 7) = gas_example\<lparr>Hsml := 6 / 5, DhsmlDensityFactor := 0\<rparr>"
    by (simp only: p sparse_reduce)
  have q2: "treewalk_get_queue cfg_example
      ((Part state_after_first)(7 := gas_example\<lparr>Hsml := 6 / 5, DhsmlDensityFactor := 0\<rparr>))
      [7] = Inr [7]"
    by (rule queue_single) (simp_all add: gas_example_def)
  have cn: "density_check_neighbours cfg_example (gas_example\<lparr>Hsml := 6 / 5\<rparr>)
      (Left state_after_first 7) (Right state_after_first 7) =
      Inr (gas_example\<lparr>Hsml := 36 / 25\<rparr>, 6 / 5, 0)"
    by (simp only: p check_second_sparse)
  have n: "\<not> DensityIterationDone (gas_example\<lparr>Hsml := 36 / 25\<rparr>)" by (simp add: gas_example_def)
  from single_particle_pass [where w = "walk_sparse k" and k = 0,
      OF q1 red q2 sparse_post_process cn] n
  show ?thesis by (simp add: state_after_sparse_def)
qed

lemma two_pass_walks:
  "walk_two_pass 0 = walk_sparse 0" "walk_two_pass (Suc k) = walk_example (Suc k)"
  by (simp_all add: walk_two_pass_def)

lemma two_pass_run:
  "density cfg_example walk_two_pass (\<lambda>k. 0) [7] state_example = Inr state_after_second"
proof -
  have m: "MAXITER cfg_example = 1" by (simp add: cfg_example_def)
  have "density_loop cfg_example walk_two_pass (\<lambda>k. 0) [7] 1 state_after_first
      = Inr state_after_second"
    by (subst density_loop.simps) (simp add: two_pass_walks second_pass_dense)
  then have "density_loop cfg_example walk_two_pass (\<lambda>k. 0) [7] 0 state_example
      = Inr state_after_second"
    by (subst density_loop.simps) (simp add: two_pass_walks first_pass m)
  then show ?thesis by (simp add: density_def example_init)
qed

lemma sparse_run:
  "after_passes cfg_example walk_sparse (\<lambda>k. 0) [7] (MAXITER cfg_example + 1) 0 state_example
     = Some state_after_sparse"
proof -
  have "after_passes cfg_example walk_sparse (\<lambda>k. 0) [7] (Suc (Suc 0)) 0 state_example
     = Some state_after_sparse"
    by (simp add: first_pass second_pass_sparse)
  moreover have "MAXITER cfg_example + 1 = Suc (Suc 0)" by (simp add: cfg_example_def)
  ultimately show ?thesis by simp
qed

lemma after_passes_empty:
  "after_passes cfg walk (\<lambda>k. 1) [] n iter s = Some s"
  by (induction n arbitrary: iter) (simp_all add: empty_pass)

text \<open>
  Claim C8, as stated: if a particle still fails the DONE predicate after \<open>MAXITER\<close>
  iterations, the program terminates fatally rather than returning. This fails by one
  pass. With \<open>MAXITER = 1\<close>, particle 7 finds 20 of 32 neighbours in the first pass and is
  not done after it; the count is 1, \<^verbatim>\<open>iter\<close> becomes 1, which is not greater than
  \<open>MAXITER\<close>, and the loop runs a second pass, in which the particle finds 32 neighbours
  and converges: \<open>density\<close> returns normally.
\<close>

theorem density_returns_after_maxiter_counterexample:
  "MAXITER cfg_example = 1 \<and>
   density_pass cfg_example (walk_two_pass 0) 0 [7] state_example = Inr (state_after_first, 1) \<and>
   \<not> DensityIterationDone (Part state_after_first 7) \<and>
   density cfg_example walk_two_pass (\<lambda>k. 0) [7] state_example = Inr state_after_second"
  by (simp add: two_pass_run two_pass_walks first_pass after_first)
    (simp add: cfg_example_def gas_example_def)

text \<open>
  Claim C8, amended: the loop of \<open>density\<close> goes on to the next pass as long as the
  passes end with a nonzero global count of particles not marked done (after
  \<open>n \<le> MAXITER\<close> such passes it runs the next pass with the counter \<open>iter = n\<close>); the
  first pass that ends with the count zero makes \<open>density\<close> return normally with the
  state of that pass; and when \<open>MAXITER + 1\<close> passes in a row, the first pass and
  \<open>MAXITER\<close> repeat iterations, end with a nonzero count (\<^verbatim>\<open>iter > MAXITER\<close>), the
  program stops in \<^verbatim>\<open>endrun(1155, ...)\<close> rather than returning. \<open>density\<close> is a total
  function: one of the outcomes is reached after at most \<open>MAXITER + 1\<close> passes.
\<close>

theorem density_loop_outcomes:
  assumes init: "density_init cfg active s0 = Inr s1"
  shows
   "(after_passes cfg walk others active n 0 s1 = Some s \<longrightarrow> n \<le> MAXITER cfg \<longrightarrow>
      density cfg walk others active s0 = density_loop cfg walk others active n s) \<and>
    (after_passes cfg walk others active n 0 s1 = Some s \<longrightarrow> n \<le> MAXITER cfg \<longrightarrow>
      density_pass cfg (walk n) (others n) active s = Inr (s', 0) \<longrightarrow>
      density cfg walk others active s0 = Inr s') \<and>
    (after_passes cfg walk others active (MAXITER cfg + 1) 0 s1 = Some s \<longrightarrow>
      density cfg walk others active s0 = Inl (Endrun 1155))"
proof (intro conjI impI)
  have d: "density cfg walk others active s0 = density_loop cfg walk others active 0 s1"
    by (simp add: density_def init)
  {
    assume a: "after_passes cfg walk others active n 0 s1 = Some s" and n: "n \<le> MAXITER cfg"
    from density_loop_continue [OF a] n d
    show c: "density cfg walk others active s0 = density_loop cfg walk others active n s"
      by simp
    assume "density_pass cfg (walk n) (others n) active s = Inr (s', 0)"
    then have "density_loop cfg walk others active n s = Inr s'"
      by (rule density_loop_exit [of cfg walk n others])
    with c show "density cfg walk others active s0 = Inr s'" by simp
  }
  assume "after_passes cfg walk others active (MAXITER cfg + 1) 0 s1 = Some s"
  then have "after_passes cfg walk others active (Suc (MAXITER cfg)) 0 s1 = Some s" by simp
  from after_passes_last [OF this] obtain sn ntot where
    sn: "after_passes cfg walk others active (MAXITER cfg) 0 s1 = Some sn" and pos: "ntot > 0"
    and p: "density_pass cfg (walk (MAXITER cfg)) (others (MAXITER cfg)) active sn = Inr (s, ntot)"
    by auto
  from density_loop_continue [OF sn] d have
    "density cfg walk others active s0 = density_loop cfg walk others active (MAXITER cfg) sn"
    by simp
  also have "\<dots> = Inl (Endrun 1155)"
    using p pos by (rule density_loop_fatal [of cfg walk "MAXITER cfg" others]) simp
  finally show "density cfg walk others active s0 = Inl (Endrun 1155)" .
qed

theorem density_loop_outcomes_witness:
  "density_init cfg_example [7] state_example = Inr state_example \<and>
   after_passes cfg_example walk_two_pass (\<lambda>k. 0) [7] 1 0 state_example = Some state_after_first \<and>
   1 \<le> MAXITER cfg_example \<and>
   density_pass cfg_example (walk_two_pass 1) 0 [7] state_after_first
     = Inr (state_after_second, 0) \<and>
   density cfg_example walk_two_pass (\<lambda>k. 0) [7] state_example = Inr state_after_second \<and>
   after_passes cfg_example walk_sparse (\<lambda>k. 0) [7] (MAXITER cfg_example + 1) 0 state_example
     = Some state_after_sparse \<and>
   density cfg_example walk_sparse (\<lambda>k. 0) [7] state_example = Inl (Endrun 1155) \<and>
   density_init cfg_example [] state_example = Inr state_example \<and>
   after_passes cfg_example walk_example (\<lambda>k. 1) [] (MAXITER cfg_example + 1) 0 state_example
     = Some state_example \<and>
   density cfg_example walk_example (\<lambda>k. 1) [] state_example = Inl (Endrun 1155)"
proof -
  note j = example_init
  have a: "after_passes cfg_example walk_two_pass (\<lambda>k. 0) [7] 1 0 state_example
      = Some state_after_first"
    by (simp add: two_pass_walks first_pass)
  have m: "1 \<le> MAXITER cfg_example" by (simp add: cfg_example_def)
  have p: "density_pass cfg_example (walk_two_pass 1) 0 [7] state_after_first
     = Inr (state_after_second, 0)"
    using two_pass_walks(2) [of 0] by (simp add: second_pass_dense)
  from density_loop_outcomes [OF j, of walk_two_pass "\<lambda>k. 0" 1 state_after_first
      state_after_second] a m p
  have x: "density cfg_example walk_two_pass (\<lambda>k. 0) [7] state_example = Inr state_after_second"
    by blast
  note b = sparse_run
  from density_loop_outcomes [OF j, of walk_sparse "\<lambda>k. 0" 0 state_after_sparse state_example] b
  have y: "density cfg_example walk_sparse (\<lambda>k. 0) [7] state_example = Inl (Endrun 1155)"
    by blast
  note i = empty_init [of cfg_example state_example]
  have c: "after_passes cfg_example walk_example (\<lambda>k. 1) [] (MAXITER cfg_example + 1) 0
      state_example = Some state_example"
    by (rule after_passes_empty)
  from density_loop_outcomes [OF i, of walk_example "\<lambda>k. 1" 0 state_example state_example] c
  have z: "density cfg_example walk_example (\<lambda>k. 1) [] state_example = Inl (Endrun 1155)"
    by blast
  from j a m p x b y i c z show ?thesis by simp
qed

end
